theory Spec2Isabelle
  imports Complex_Main
begin

section \<open>Python values\<close>

text \<open>
  A Python \<open>str\<close> is a sequence of Unicode code points, so it is modelled as a list of
  natural numbers; \<open>py\<close> turns an ASCII literal into that representation.  The phrases of
  \<open>_looks_like_login_expired\<close> are written down as the code points that stand between the
  quotes of the literals in \<open>main.py\<close>.
\<close>

type_synonym pystr = "nat list"

definition py :: "string \<Rightarrow> pystr" where
  "py s = map of_char s"

text \<open>The prefix test behind Python's substring search.\<close>

fun starts_with :: "pystr \<Rightarrow> pystr \<Rightarrow> bool" where
  "starts_with [] hay = True"
| "starts_with (k # ks) [] = False"
| "starts_with (k # ks) (c # cs) = (k = c \<and> starts_with ks cs)"

text \<open>\<open>keyword in message\<close> for two strings: the keyword occurs at some position.\<close>

fun str_contains :: "pystr \<Rightarrow> pystr \<Rightarrow> bool" where
  "str_contains k [] = (k = [])"
| "str_contains k (c # cs) = (starts_with k (c # cs) \<or> str_contains k cs)"

section \<open>Session-expiry classification\<close>

text \<open>The list \<open>keywords\<close> of the source (the name is reserved in Isabelle).\<close>

definition expired_keywords :: "pystr list" where
  "expired_keywords =
    [ [231, 8482, 187, 229, 189, 8226, 232, 191, 8225, 230, 339, 376],
      [231, 8482, 187, 229, 189, 8226, 229, 183, 178, 232, 191, 8225, 230, 339, 376],
      [232, 175, 183, 231, 8482, 187, 229, 189, 8226],
      [232, 175, 183, 229, 8230, 710, 231, 8482, 187, 229, 189, 8226],
      [230, 339, 170, 231, 8482, 187, 229, 189, 8226],
      [232, 180, 166, 229, 183, 232, 191, 8225, 230, 339, 376],
      py ''token'' @ [232, 191, 8225, 230, 339, 376],
      py ''Token'' @ [232, 191, 8225, 230, 339, 376] ]"

text \<open>\<open>any(keyword in message for keyword in keywords)\<close>\<close>

definition looks_like_login_expired :: "pystr \<Rightarrow> bool" where
  "looks_like_login_expired message = list_ex (\<lambda>keyword. str_contains keyword message) expired_keywords"

text \<open>
  The classification as the specification words it: a case-insensitive substring match
  against the same phrases.  Case is folded on the ASCII letters, which is all the
  comparison below needs.
\<close>

definition ascii_lower :: "pystr \<Rightarrow> pystr" where
  "ascii_lower s = map (\<lambda>c. if 65 \<le> c \<and> c \<le> 90 then c + 32 else c) s"

definition spec_looks_like_login_expired :: "pystr \<Rightarrow> bool" where
  "spec_looks_like_login_expired message =
     list_ex (\<lambda>keyword. str_contains (ascii_lower keyword) (ascii_lower message)) expired_keywords"

section \<open>JSON values and exceptions\<close>

text \<open>
  A Python \<open>float\<close> is a finite number, one of the two infinities, or not a number.  The
  finite ones are carried by the real number they denote, with the negative zero apart
  (\<open>Finite 0\<close> is the positive one).
\<close>

datatype pyfloat = Finite real | NegZero | PosInf | NegInf | NaN

text \<open>
  The values that \<open>json.loads\<close> and \<open>resp.json()\<close> produce, which are also the values the
  configuration holds.  Python's \<open>None\<close> is \<open>JNull\<close>.  A \<open>dict\<close> is its list of items;
  \<open>map_of\<close> is the lookup.
\<close>

datatype json =
    JNull
  | JBool bool
  | JInt int
  | JFloat pyfloat
  | JStr pystr
  | JArr "json list"
  | JObj "(pystr \<times> json) list"

text \<open>An exception is its class and \<open>str(exc)\<close>.  \<open>ClientError\<close> stands for what aiohttp raises.\<close>

datatype exn =
    RuntimeError pystr
  | RecursionError pystr
  | AttributeError pystr
  | TypeError pystr
  | ValueError pystr
  | JSONDecodeError pystr
  | OverflowError pystr
  | ClientError pystr

fun exc_str :: "exn \<Rightarrow> pystr" where
  "exc_str (RuntimeError m) = m"
| "exc_str (RecursionError m) = m"
| "exc_str (AttributeError m) = m"
| "exc_str (TypeError m) = m"
| "exc_str (ValueError m) = m"
| "exc_str (JSONDecodeError m) = m"
| "exc_str (OverflowError m) = m"
| "exc_str (ClientError m) = m"

text \<open>
  What \<open>except json.JSONDecodeError\<close> and \<open>except (TypeError, ValueError)\<close> catch:
  \<open>JSONDecodeError\<close> is a subclass of \<open>ValueError\<close>.
\<close>

fun is_json_decode_error :: "exn \<Rightarrow> bool" where
  "is_json_decode_error (JSONDecodeError m) = True"
| "is_json_decode_error e = False"

fun is_type_or_value_error :: "exn \<Rightarrow> bool" where
  "is_type_or_value_error (TypeError m) = True"
| "is_type_or_value_error (ValueError m) = True"
| "is_type_or_value_error (JSONDecodeError m) = True"
| "is_type_or_value_error e = False"

section \<open>Float comparison and arithmetic\<close>

text \<open>
  Comparisons are exact, between two floats and between a float and an \<open>int\<close>, and every
  comparison with \<open>NaN\<close> is false.  \<open>float_rank\<close> and \<open>float_value\<close> place a float that is not
  \<open>NaN\<close> on the extended number line.
\<close>

fun float_rank :: "pyfloat \<Rightarrow> int" where
  "float_rank PosInf = 1"
| "float_rank NegInf = - 1"
| "float_rank f = 0"

fun float_value :: "pyfloat \<Rightarrow> real" where
  "float_value (Finite x) = x"
| "float_value f = 0"

text \<open>\<open>a < b\<close> and \<open>a <= b\<close> for two floats; \<open>a > b\<close> is \<open>b < a\<close> and \<open>a >= b\<close> is \<open>b <= a\<close>.\<close>

definition float_less :: "pyfloat \<Rightarrow> pyfloat \<Rightarrow> bool" where
  "float_less a b \<longleftrightarrow>
     a \<noteq> NaN \<and> b \<noteq> NaN
     \<and> (float_rank a < float_rank b \<or> (float_rank a = float_rank b \<and> float_value a < float_value b))"

definition float_le :: "pyfloat \<Rightarrow> pyfloat \<Rightarrow> bool" where
  "float_le a b \<longleftrightarrow>
     a \<noteq> NaN \<and> b \<noteq> NaN
     \<and> (float_rank a < float_rank b \<or> (float_rank a = float_rank b \<and> float_value a \<le> float_value b))"

text \<open>\<open>a < n\<close> and \<open>a == n\<close> for a float \<open>a\<close> and an \<open>int\<close> \<open>n\<close>.\<close>

definition float_less_int :: "pyfloat \<Rightarrow> int \<Rightarrow> bool" where
  "float_less_int a n \<longleftrightarrow>
     a \<noteq> NaN \<and> (float_rank a < 0 \<or> (float_rank a = 0 \<and> float_value a < of_int n))"

definition float_eq_int :: "pyfloat \<Rightarrow> int \<Rightarrow> bool" where
  "float_eq_int a n \<longleftrightarrow> a \<noteq> NaN \<and> float_rank a = 0 \<and> float_value a = of_int n"

text \<open>
  Arithmetic rounds.  The rounding of an exact result to the float format (to the nearest
  float, to an infinity beyond the range) is the parameter \<open>rnd\<close>; the rules for the
  special values are those of IEEE 754.  A difference that is exactly zero is the
  positive zero, except that \<open>-0.0 - 0.0\<close> is \<open>-0.0\<close>.
\<close>

definition float_sub :: "(real \<Rightarrow> pyfloat) \<Rightarrow> pyfloat \<Rightarrow> pyfloat \<Rightarrow> pyfloat" where
  "float_sub rnd a b =
     (if a = NaN \<or> b = NaN then NaN
      else if float_rank a \<noteq> 0 then (if float_rank b = float_rank a then NaN else a)
      else if float_rank b \<noteq> 0 then (if b = PosInf then NegInf else PosInf)
      else if float_value a - float_value b \<noteq> 0 then rnd (float_value a - float_value b)
      else if a = NegZero \<and> b = Finite 0 then NegZero
      else Finite 0)"

text \<open>
  The conversion of an \<open>int\<close> to a float rounds as well, and has no result when the \<open>int\<close>
  is beyond the range (\<open>OverflowError\<close>).
\<close>

definition float_of_int :: "(real \<Rightarrow> pyfloat) \<Rightarrow> int \<Rightarrow> pyfloat option" where
  "float_of_int rnd i =
     (if i = 0 then Some (Finite 0)
      else (case rnd (of_int i) of PosInf \<Rightarrow> None | NegInf \<Rightarrow> None | f \<Rightarrow> Some f))"

definition int_too_large :: exn where
  "int_too_large = OverflowError (py ''int too large to convert to float'')"

text \<open>\<open>i - f\<close> for an \<open>int\<close> and a float: the \<open>int\<close> is converted, then the floats subtracted.\<close>

definition int_sub_float :: "(real \<Rightarrow> pyfloat) \<Rightarrow> int \<Rightarrow> pyfloat \<Rightarrow> exn + pyfloat" where
  "int_sub_float rnd i f =
     (case float_of_int rnd i of
        None \<Rightarrow> Inl int_too_large
      | Some g \<Rightarrow> Inr (float_sub rnd g f))"

section \<open>Operations on values\<close>

fun type_name :: "json \<Rightarrow> pystr" where
  "type_name JNull = py ''NoneType''"
| "type_name (JBool b) = py ''bool''"
| "type_name (JInt i) = py ''int''"
| "type_name (JFloat r) = py ''float''"
| "type_name (JStr s) = py ''str''"
| "type_name (JArr xs) = py ''list''"
| "type_name (JObj kvs) = py ''dict''"

text \<open>Truth value testing (\<open>if x\<close>, \<open>not x\<close>): of the floats only the two zeros are false.\<close>

fun truthy :: "json \<Rightarrow> bool" where
  "truthy JNull = False"
| "truthy (JBool b) = b"
| "truthy (JInt i) = (i \<noteq> 0)"
| "truthy (JFloat r) = (r \<noteq> Finite 0 \<and> r \<noteq> NegZero)"
| "truthy (JStr s) = (s \<noteq> [])"
| "truthy (JArr xs) = (xs \<noteq> [])"
| "truthy (JObj kvs) = (kvs \<noteq> [])"

text \<open>\<open>x == n\<close> for an integer literal \<open>n\<close>: \<open>True == 1\<close> and \<open>1.0 == 1\<close> hold in Python.\<close>

fun py_eq_int :: "json \<Rightarrow> int \<Rightarrow> bool" where
  "py_eq_int (JBool b) n = ((if b then 1 else 0) = n)"
| "py_eq_int (JInt i) n = (i = n)"
| "py_eq_int (JFloat r) n = float_eq_int r n"
| "py_eq_int v n = False"

text \<open>
  \<open>str(x)\<close> as an f-string applies it.  A string is copied as it is; the text of numbers
  and containers is left to the builtin \<open>repr\<close>, a parameter.
\<close>

fun py_format :: "(json \<Rightarrow> pystr) \<Rightarrow> json \<Rightarrow> pystr" where
  "py_format repr (JStr s) = s"
| "py_format repr JNull = py ''None''"
| "py_format repr (JBool b) = (if b then py ''True'' else py ''False'')"
| "py_format repr v = repr v"

text \<open>\<open>x.get(key, default)\<close>: only a dict has the method.  Code point 39 is the quote.\<close>

definition no_attribute_get :: "json \<Rightarrow> exn" where
  "no_attribute_get v =
     AttributeError ([39] @ type_name v @ [39] @ py '' object has no attribute '' @ [39] @ py ''get'' @ [39])"

fun lookup :: "(pystr \<times> json) list \<Rightarrow> pystr \<Rightarrow> json \<Rightarrow> json" where
  "lookup kvs key dflt = (case map_of kvs key of None \<Rightarrow> dflt | Some v \<Rightarrow> v)"

fun dict_get :: "json \<Rightarrow> pystr \<Rightarrow> json \<Rightarrow> exn + json" where
  "dict_get (JObj kvs) key dflt = Inr (lookup kvs key dflt)"
| "dict_get v key dflt = Inl (no_attribute_get v)"

text \<open>\<open>for x in v\<close>: a list gives its elements, a string its characters, a dict its keys.\<close>

fun py_iter :: "json \<Rightarrow> exn + json list" where
  "py_iter (JArr xs) = Inr xs"
| "py_iter (JStr s) = Inr (map (\<lambda>c. JStr [c]) s)"
| "py_iter (JObj kvs) = Inr (map (\<lambda>kv. JStr (fst kv)) kvs)"
| "py_iter v = Inl (TypeError ([39] @ type_name v @ [39] @ py '' object is not iterable''))"

section \<open>Balance client: parsing the balance response\<close>

record balance_snapshot =
  room_name :: json
  device_name :: json
  balance :: json
  price :: json
  update_time :: json
  is_online :: bool
  switch_status :: bool

text \<open>The three errors of \<open>_parse_balance\<close>, all of class \<open>RuntimeError\<close>.\<close>

definition ApiError :: "pystr \<Rightarrow> exn" where
  "ApiError message = RuntimeError (py ''api error: '' @ message)"

definition NoDevicesBound :: exn where
  "NoDevicesBound = RuntimeError (py ''no bound devices found'')"

definition NoMeterDevice :: exn where
  "NoMeterDevice = RuntimeError (py ''no electricity meter device found'')"

text \<open>The dict that \<open>_parse_balance\<close> returns for the matching device.\<close>

definition snapshot_of :: "json \<Rightarrow> (pystr \<times> json) list \<Rightarrow> balance_snapshot" where
  "snapshot_of room device =
     \<lparr> room_name = room,
       device_name = lookup device (py ''DeviceName'') JNull,
       balance = lookup device (py ''DeviceBalance'') JNull,
       price = lookup device (py ''DevicePrice'') JNull,
       update_time = lookup device (py ''UpdateTime'') JNull,
       is_online = py_eq_int (lookup device (py ''IsOnline'') JNull) 1,
       switch_status = py_eq_int (lookup device (py ''SwitchStatus'') JNull) 1 \<rparr>"

text \<open>The \<open>for device in devices_list\<close> loop with the \<open>raise\<close> that follows it.\<close>

fun scan_devices :: "json \<Rightarrow> json list \<Rightarrow> exn + balance_snapshot" where
  "scan_devices room [] = Inl NoMeterDevice"
| "scan_devices room (JObj device # rest) =
     (if py_eq_int (lookup device (py ''DeviceType'') JNull) 1
      then Inr (snapshot_of room device)
      else scan_devices room rest)"
| "scan_devices room (v # rest) = Inl (no_attribute_get v)"

text \<open>
  \<open>data.get("Data", {}).get("DevicesList", [])\<close> and
  \<open>data.get("Data", {}).get("RoomName", "unknown")\<close>
\<close>

definition devices_list_of :: "(pystr \<times> json) list \<Rightarrow> exn + json" where
  "devices_list_of data = dict_get (lookup data (py ''Data'') (JObj [])) (py ''DevicesList'') (JArr [])"

definition room_name_of :: "(pystr \<times> json) list \<Rightarrow> exn + json" where
  "room_name_of data = dict_get (lookup data (py ''Data'') (JObj [])) (py ''RoomName'') (JStr (py ''unknown''))"

fun parse_balance :: "(json \<Rightarrow> pystr) \<Rightarrow> json \<Rightarrow> exn + balance_snapshot" where
  "parse_balance repr (JObj data) =
     (if \<not> py_eq_int (lookup data (py ''Tag'') JNull) 1
      then Inl (ApiError (py_format repr (lookup data (py ''Message'') JNull)))
      else
        (case devices_list_of data of
           Inl e \<Rightarrow> Inl e
         | Inr devices_list \<Rightarrow>
        (case room_name_of data of
           Inl e \<Rightarrow> Inl e
         | Inr room \<Rightarrow>
             if \<not> truthy devices_list then Inl NoDevicesBound
             else (case py_iter devices_list of
                     Inl e \<Rightarrow> Inl e
                   | Inr devices \<Rightarrow> scan_devices room devices))))"
| "parse_balance repr v = Inl (no_attribute_get v)"

section \<open>Destination lists\<close>

text \<open>
  \<open>str.strip()\<close> removes the code points for which \<open>str.isspace\<close> holds from both ends;
  \<open>str.split(",")\<close> cuts at every comma (code point 44) and keeps empty pieces.
\<close>

definition is_space :: "nat \<Rightarrow> bool" where
  "is_space c \<longleftrightarrow>
     (9 \<le> c \<and> c \<le> 13) \<or> (28 \<le> c \<and> c \<le> 32) \<or> c = 133 \<or> c = 160 \<or> c = 5760
     \<or> (8192 \<le> c \<and> c \<le> 8202) \<or> c = 8232 \<or> c = 8233 \<or> c = 8239 \<or> c = 8287 \<or> c = 12288"

definition py_strip :: "pystr \<Rightarrow> pystr" where
  "py_strip s = rev (dropWhile is_space (rev (dropWhile is_space s)))"

fun split_on :: "nat \<Rightarrow> pystr \<Rightarrow> pystr list" where
  "split_on sep [] = [[]]"
| "split_on sep (c # cs) =
     (if c = sep then [] # split_on sep cs
      else (case split_on sep cs of [] \<Rightarrow> [[c]] | w # ws \<Rightarrow> (c # w) # ws))"

text \<open>The last two statements of \<open>_normalize_list\<close> for a string: its comma-separated items.\<close>

definition comma_items :: "pystr \<Rightarrow> json list" where
  "comma_items s =
     (if py_strip s \<noteq> []
      then map (\<lambda>item. JStr (py_strip item)) (filter (\<lambda>item. py_strip item \<noteq> []) (split_on 44 s))
      else [])"

text \<open>
  \<open>_normalize_list\<close>.  \<open>loads\<close> is \<open>json.loads\<close>, which returns a value or raises; only a
  \<open>JSONDecodeError\<close> is caught, every other exception leaves the function.
\<close>

fun normalize_list :: "(pystr \<Rightarrow> exn + json) \<Rightarrow> json \<Rightarrow> exn + json list" where
  "normalize_list loads JNull = Inr []"
| "normalize_list loads (JArr xs) = Inr xs"
| "normalize_list loads (JStr s) =
     (case loads s of
        Inl e \<Rightarrow> if is_json_decode_error e then Inr (comma_items s) else Inl e
      | Inr (JArr parsed) \<Rightarrow> Inr parsed
      | Inr parsed \<Rightarrow> Inr (comma_items s))"
| "normalize_list loads v = Inr []"

text \<open>
  \<open>_dedupe_list\<close>: the loop carries \<open>seen\<close> and \<open>result\<close>.  Membership in \<open>seen\<close> is equality of
  the items, which is what it is in Python for strings.
\<close>

fun dedupe_loop :: "'a list \<Rightarrow> 'a set \<Rightarrow> 'a list \<Rightarrow> 'a list" where
  "dedupe_loop [] seen result = result"
| "dedupe_loop (item # items) seen result =
     (if item \<in> seen then dedupe_loop items seen result
      else dedupe_loop items (insert item seen) (result @ [item]))"

definition dedupe_list :: "'a list \<Rightarrow> 'a list" where
  "dedupe_list items = dedupe_loop items {} []"

section \<open>Configuration, environment and state\<close>

text \<open>
  The keys of the plugin's configuration that the code reads or writes.  A key that is
  absent reads as \<open>None\<close> (\<open>config.get(key)\<close>).
\<close>

record astrbot_config =
  electricity_token :: json
  electricity_account :: json
  electricity_password :: json
  auto_check :: json
  check_interval_minutes :: json
  threshold :: json
  auto_refresh_token :: json
  last_balance :: json
  last_check_ts :: json
  notify_origins :: json
  use_onebot11_card :: json

text \<open>\<open>_get_config(key, default)\<close>, applied to the value stored under the key.\<close>

definition get_config :: "json \<Rightarrow> json \<Rightarrow> json" where
  "get_config v dflt = (if v = JNull then dflt else v)"

text \<open>
  The messages the monitor sends, kept symbolic (their rendering as text or as a card is
  presentation): the values the \<open>_format_..._message\<close> functions print.
\<close>

datatype notice =
    LowBalance pyfloat json json
  | Recharge pyfloat pyfloat json json
  | CheckFailed exn

datatype payload = Card notice | Plain notice

text \<open>The argument of \<open>asyncio.sleep\<close>: an \<open>int\<close> or a float.\<close>

datatype number = IntNum int | FloatNum pyfloat

text \<open>
  What the code does to the outside, in the order it does it: a call of
  \<open>login_and_get_token\<close>, a call of \<open>_request_balance\<close>, \<open>save_config()\<close>,
  \<open>asyncio.sleep(d)\<close>, a delivery to a destination (with whether it went through), and
  \<open>logger.error\<close>.
\<close>

datatype event =
    EvLogin
  | EvRequest
  | EvSave
  | EvSleep number
  | EvSend json payload bool
  | EvLogError exn

text \<open>
  The environment: the clock (\<open>time.time()\<close> gives a finite float), the two endpoints,
  the notifier, the rounding of float arithmetic, and the builtins whose text formats are
  not modelled (\<open>None\<close> where \<open>int\<close> or \<open>float\<close> raise \<open>ValueError\<close> for a string).  \<open>'w\<close> is the
  state of the outside world.  A request that fails in transport (or whose body is not
  JSON) gives \<open>Inl\<close>; the login reply carries the JSON body and the value of the
  \<open>AppUserToken\<close> cookie, if there is one.
\<close>

record 'w env =
  time_now :: "'w \<Rightarrow> real"
  sleep :: "number \<Rightarrow> 'w \<Rightarrow> 'w"
  post_login :: "json \<Rightarrow> json \<Rightarrow> 'w \<Rightarrow> (exn + json \<times> pystr option) \<times> 'w"
  post_balance :: "json \<Rightarrow> 'w \<Rightarrow> (exn + json) \<times> 'w"
  send_message :: "json \<Rightarrow> payload \<Rightarrow> 'w \<Rightarrow> exn option \<times> 'w"
  py_repr :: "json \<Rightarrow> pystr"
  int_of_str :: "pystr \<Rightarrow> int option"
  float_of_str :: "pystr \<Rightarrow> pyfloat option"
  round_float :: "real \<Rightarrow> pyfloat"
  json_loads :: "pystr \<Rightarrow> exn + json"

text \<open>
  The state: the world, the configuration object and what \<open>save_config\<close> last wrote, the
  client's fields, the plugin's \<open>_stopped\<close> flag, and the trace of events.
\<close>

record 'w state =
  world :: 'w
  config :: astrbot_config
  saved :: astrbot_config
  token :: json
  account :: json
  password :: json
  stopped :: bool
  trace :: "event list"

definition emit :: "event \<Rightarrow> 'w state \<Rightarrow> 'w state" where
  "emit e s = s\<lparr>trace := trace s @ [e]\<rparr>"

definition save_config :: "'w state \<Rightarrow> 'w state" where
  "save_config s = emit EvSave (s\<lparr>saved := config s\<rparr>)"

text \<open>
  \<open>int(x)\<close> on a configuration value.  A float is truncated towards zero; an infinity
  gives \<open>OverflowError\<close> and \<open>NaN\<close> gives \<open>ValueError\<close>.
\<close>

fun int_of_float :: "pyfloat \<Rightarrow> exn + int" where
  "int_of_float (Finite r) = Inr (if 0 \<le> r then \<lfloor>r\<rfloor> else \<lceil>r\<rceil>)"
| "int_of_float NegZero = Inr 0"
| "int_of_float NaN = Inl (ValueError (py ''cannot convert float NaN to integer''))"
| "int_of_float f = Inl (OverflowError (py ''cannot convert float infinity to integer''))"

fun py_int :: "(pystr \<Rightarrow> int option) \<Rightarrow> (json \<Rightarrow> pystr) \<Rightarrow> json \<Rightarrow> exn + int" where
  "py_int parse repr (JInt i) = Inr i"
| "py_int parse repr (JBool b) = Inr (if b then 1 else 0)"
| "py_int parse repr (JFloat r) = int_of_float r"
| "py_int parse repr (JStr s) =
     (case parse s of
        Some i \<Rightarrow> Inr i
      | None \<Rightarrow> Inl (ValueError (py ''invalid literal for int() with base 10: '' @ repr (JStr s))))"
| "py_int parse repr v =
     Inl (TypeError (py ''int() argument must be a string, a bytes-like object or a real number, not ''
                     @ [39] @ type_name v @ [39]))"

text \<open>
  \<open>float(x)\<close> on a configuration value.  A float is returned as it is; an \<open>int\<close> is rounded,
  with \<open>OverflowError\<close> when it is beyond the range.
\<close>

fun py_float :: "(real \<Rightarrow> pyfloat) \<Rightarrow> (pystr \<Rightarrow> pyfloat option) \<Rightarrow> (json \<Rightarrow> pystr) \<Rightarrow> json \<Rightarrow> exn + pyfloat" where
  "py_float rnd parse repr (JFloat r) = Inr r"
| "py_float rnd parse repr (JInt i) =
     (case float_of_int rnd i of Some f \<Rightarrow> Inr f | None \<Rightarrow> Inl int_too_large)"
| "py_float rnd parse repr (JBool b) = Inr (Finite (if b then 1 else 0))"
| "py_float rnd parse repr (JStr s) =
     (case parse s of
        Some r \<Rightarrow> Inr r
      | None \<Rightarrow> Inl (ValueError (py ''could not convert string to float: '' @ repr (JStr s))))"
| "py_float rnd parse repr v =
     Inl (TypeError (py ''float() argument must be a string or a real number, not ''
                     @ [39] @ type_name v @ [39]))"

abbreviation to_float :: "'w env \<Rightarrow> json \<Rightarrow> exn + pyfloat" where
  "to_float env \<equiv> py_float (round_float env) (float_of_str env) (py_repr env)"

section \<open>Balance client\<close>

definition login_and_get_token :: "'w env \<Rightarrow> 'w state \<Rightarrow> (exn + json) \<times> 'w state" where
  "login_and_get_token env s0 =
     (let s = emit EvLogin s0 in
      if \<not> truthy (account s) \<or> \<not> truthy (password s)
      then (Inl (RuntimeError (py ''missing account/password for token refresh'')), s)
      else
        (case post_login env (account s) (password s) (world s) of
           (Inl e, w) \<Rightarrow> (Inl e, s\<lparr>world := w\<rparr>)
         | (Inr (result, token_cookie), w) \<Rightarrow>
             (case dict_get result (py ''Tag'') JNull of
                Inl e \<Rightarrow> (Inl e, s\<lparr>world := w\<rparr>)
              | Inr tag \<Rightarrow>
                  if \<not> py_eq_int tag 1
                  then
                    (case dict_get result (py ''Message'') (JStr (py ''unknown error'')) of
                       Inl e \<Rightarrow> (Inl e, s\<lparr>world := w\<rparr>)
                     | Inr m \<Rightarrow>
                         (Inl (RuntimeError (py ''login failed: '' @ py_format (py_repr env) m)),
                          s\<lparr>world := w\<rparr>))
                  else
                    (case token_cookie of
                       None \<Rightarrow>
                         (Inl (RuntimeError (py ''login succeeded but token missing'')), s\<lparr>world := w\<rparr>)
                     | Some v \<Rightarrow>
                         (Inr (JStr v),
                          save_config
                            (s\<lparr>world := w, token := JStr v,
                               config := (config s)\<lparr>electricity_token := JStr v\<rparr>\<rparr>))))))"

definition request_balance :: "'w env \<Rightarrow> 'w state \<Rightarrow> (exn + json) \<times> 'w state" where
  "request_balance env s0 =
     (let s = emit EvRequest s0 in
      if \<not> truthy (token s)
      then (Inl (RuntimeError (py ''missing electricity_token'')), s)
      else (case post_balance env (token s) (world s) of (r, w) \<Rightarrow> (r, s\<lparr>world := w\<rparr>)))"

text \<open>\<open>data = await self._request_balance(); return self._parse_balance(data)\<close>\<close>

definition fetch_and_parse :: "'w env \<Rightarrow> 'w state \<Rightarrow> (exn + balance_snapshot) \<times> 'w state" where
  "fetch_and_parse env s =
     (case request_balance env s of
        (Inl e, s1) \<Rightarrow> (Inl e, s1)
      | (Inr data, s1) \<Rightarrow> (parse_balance (py_repr env) data, s1))"

text \<open>The first statement of the \<open>try\<close> block: log in first when no token is held.\<close>

definition login_first :: "'w env \<Rightarrow> bool \<Rightarrow> 'w state \<Rightarrow> exn option \<times> 'w state" where
  "login_first env auto_retry s =
     (if auto_retry \<and> \<not> truthy (token s) \<and> truthy (account s) \<and> truthy (password s)
      then (case login_and_get_token env s of (Inl e, s1) \<Rightarrow> (Some e, s1) | (Inr t, s1) \<Rightarrow> (None, s1))
      else (None, s))"

text \<open>The \<open>try\<close> block of \<open>get_balance\<close>.\<close>

definition try_block :: "'w env \<Rightarrow> bool \<Rightarrow> 'w state \<Rightarrow> (exn + balance_snapshot) \<times> 'w state" where
  "try_block env auto_retry s =
     (case login_first env auto_retry s of
        (Some e, s1) \<Rightarrow> (Inl e, s1)
      | (None, s1) \<Rightarrow> fetch_and_parse env s1)"

text \<open>The body of the \<open>if\<close> in the \<open>except\<close> clause: one login, one fetch, one parse.\<close>

definition retry :: "'w env \<Rightarrow> 'w state \<Rightarrow> (exn + balance_snapshot) \<times> 'w state" where
  "retry env s =
     (case login_and_get_token env s of
        (Inl e, s1) \<Rightarrow> (Inl e, s1)
      | (Inr t, s1) \<Rightarrow> fetch_and_parse env s1)"

definition get_balance :: "'w env \<Rightarrow> bool \<Rightarrow> 'w state \<Rightarrow> (exn + balance_snapshot) \<times> 'w state" where
  "get_balance env auto_retry s =
     (case try_block env auto_retry s of
        (Inr info, s1) \<Rightarrow> (Inr info, s1)
      | (Inl exc, s1) \<Rightarrow>
          if auto_retry \<and> truthy (account s1) \<and> truthy (password s1)
             \<and> looks_like_login_expired (exc_str exc)
          then retry env s1
          else (Inl exc, s1))"

section \<open>Monitor loop\<close>

text \<open>\<open>_send_to_origins\<close>: one delivery per destination; a delivery that raises is logged.\<close>

fun send_to_origins :: "'w env \<Rightarrow> json list \<Rightarrow> notice \<Rightarrow> bool \<Rightarrow> 'w state \<Rightarrow> 'w state" where
  "send_to_origins env [] n use_card s = s"
| "send_to_origins env (origin # origins) n use_card s =
     (let p = (if use_card \<and> truthy (get_config (use_onebot11_card (config s)) (JBool True))
               then Card n else Plain n)
      in case send_message env origin p (world s) of
           (r, w) \<Rightarrow>
             send_to_origins env origins n use_card (emit (EvSend origin p (r = None)) (s\<lparr>world := w\<rparr>)))"

definition do_sleep :: "'w env \<Rightarrow> number \<Rightarrow> 'w state \<Rightarrow> 'w state" where
  "do_sleep env d s = emit (EvSleep d) (s\<lparr>world := sleep env d (world s)\<rparr>)"

text \<open>
  \<open>max(1, int(interval_minutes))\<close> with 60 for \<open>TypeError\<close> and \<open>ValueError\<close>; the
  \<open>OverflowError\<close> of an infinite float is not caught.
\<close>

definition interval_minutes_of :: "'w env \<Rightarrow> astrbot_config \<Rightarrow> exn + int" where
  "interval_minutes_of env cfg =
     (case py_int (int_of_str env) (py_repr env) (get_config (check_interval_minutes cfg) (JInt 60)) of
        Inr i \<Rightarrow> Inr (max 1 i)
      | Inl e \<Rightarrow> if is_type_or_value_error e then Inr 60 else Inl e)"

text \<open>
  The body of the \<open>try\<close> in the loop, from \<open>get_balance\<close> to \<open>save_config\<close>.  The result
  is the exception that left it, if one did.
\<close>

definition run_check :: "'w env \<Rightarrow> real \<Rightarrow> json list \<Rightarrow> 'w state \<Rightarrow> exn option \<times> 'w state" where
  "run_check env now origins s =
     (case get_balance env (truthy (get_config (auto_refresh_token (config s)) (JBool True))) s of
        (Inl e, s1) \<Rightarrow> (Some e, s1)
      | (Inr info, s1) \<Rightarrow>
     (case to_float env (balance info) of
        Inl e \<Rightarrow> (Some e, s1)
      | Inr bal \<Rightarrow>
     (case to_float env (get_config (threshold (config s1)) (JFloat (Finite 30))) of
        Inl e \<Rightarrow> (Some e, s1)
      | Inr thr \<Rightarrow>
          (let last = get_config (last_balance (config s1)) JNull;
               s2 = (if float_less bal thr
                     then send_to_origins env origins
                            (LowBalance bal (get_config (threshold (config s1)) (JFloat (Finite 30)))
                               (update_time info))
                            True s1
                     else s1)
           in case (if last \<noteq> JNull then map_sum id Some (to_float env last) else Inr None) of
                Inl e \<Rightarrow> (Some e, s2)
              | Inr previous \<Rightarrow>
                  (let s3 = (case previous of
                               Some l \<Rightarrow>
                                 if float_less l bal
                                 then send_to_origins env origins
                                        (Recharge bal l
                                           (get_config (check_interval_minutes (config s2)) (JInt 60))
                                           (update_time info))
                                        True s2
                                 else s2
                             | None \<Rightarrow> s2)
                   in (None,
                       save_config
                         (s3\<lparr>config := (config s3)\<lparr>last_balance := JFloat bal,
                                                    last_check_ts := JFloat (Finite now)\<rparr>\<rparr>)))))))"

text \<open>The \<open>try\<close> with its \<open>except Exception\<close> clause.\<close>

definition check :: "'w env \<Rightarrow> real \<Rightarrow> json list \<Rightarrow> 'w state \<Rightarrow> 'w state" where
  "check env now origins s =
     (case run_check env now origins s of
        (None, s1) \<Rightarrow> s1
      | (Some exc, s1) \<Rightarrow> send_to_origins env origins (CheckFailed exc) False (emit (EvLogError exc) s1))"

text \<open>\<open>_get_notify_origins\<close>\<close>

definition get_notify_origins :: "'w env \<Rightarrow> 'w state \<Rightarrow> exn + json list" where
  "get_notify_origins env s = normalize_list (json_loads env) (notify_origins (config s))"

text \<open>
  One pass through the body of \<open>while not self._stopped\<close> ends at the bottom or at a
  \<open>continue\<close>, or is left by an exception.
\<close>

datatype 's outcome = Next 's | Raised exn 's

text \<open>
  The rest of an iteration after the due-time computation, with the final sleep.  The
  destinations are read outside the \<open>try\<close>.
\<close>

definition check_and_sleep :: "'w env \<Rightarrow> real \<Rightarrow> int \<Rightarrow> 'w state \<Rightarrow> 'w state outcome" where
  "check_and_sleep env now interval_minutes s =
     (if truthy (get_config (auto_check (config s)) (JBool True))
      then (case get_notify_origins env s of
              Inl e \<Rightarrow> Raised e s
            | Inr origins \<Rightarrow>
                Next (do_sleep env (IntNum (interval_minutes * 60))
                        (if origins \<noteq> [] then check env now origins s else s)))
      else Next (do_sleep env (IntNum (interval_minutes * 60)) s))"

text \<open>
  The first part of the loop body after \<open>interval_minutes\<close> has been computed, up to the
  decision: wait for the rest of the interval, go on to the check (in the state given,
  which has the timestamp cleared when \<open>now >= last_check_ts\<close> did not hold), or leave the
  loop with the exception of \<open>float(last_check_ts)\<close> or of \<open>interval_seconds - elapsed\<close>.
\<close>

datatype 's due = Wait pyfloat | Due 's | Broken exn

definition due_check :: "'w env \<Rightarrow> int \<Rightarrow> 'w state \<Rightarrow> 'w state due" where
  "due_check env interval_minutes s =
     (let interval_seconds = interval_minutes * 60;
          last = get_config (last_check_ts (config s)) JNull;
          now = Finite (time_now env (world s))
      in if last \<noteq> JNull
         then (case to_float env last of
                 Inl e \<Rightarrow> Broken e
               | Inr last_ts \<Rightarrow>
                   if float_le last_ts now
                   then (let elapsed = float_sub (round_float env) now last_ts
                         in if float_less_int elapsed interval_seconds
                            then (case int_sub_float (round_float env) interval_seconds elapsed of
                                    Inl e \<Rightarrow> Broken e
                                  | Inr remaining \<Rightarrow> Wait remaining)
                            else Due s)
                   else Due (save_config (s\<lparr>config := (config s)\<lparr>last_check_ts := JNull\<rparr>\<rparr>)))
         else Due s)"

text \<open>One pass through the body of the loop.\<close>

definition monitor_iteration :: "'w env \<Rightarrow> 'w state \<Rightarrow> 'w state outcome" where
  "monitor_iteration env s =
     (case interval_minutes_of env (config s) of
        Inl e \<Rightarrow> Raised e s
      | Inr interval_minutes \<Rightarrow>
          (case due_check env interval_minutes s of
             Wait d \<Rightarrow> Next (do_sleep env (FloatNum d) s)
           | Broken e \<Rightarrow> Raised e s
           | Due s0 \<Rightarrow> check_and_sleep env (time_now env (world s)) interval_minutes s0))"

text \<open>
  The loop, unfolded at most \<open>n\<close> times: it exits when the flag is set, ends with the
  exception that escapes an iteration, or is still running when the fuel is used up.
\<close>

datatype 's loop_result = Exited 's | Crashed exn 's | Running 's

fun monitor_loop :: "'w env \<Rightarrow> nat \<Rightarrow> 'w state \<Rightarrow> 'w state loop_result" where
  "monitor_loop env 0 s = (if stopped s then Exited s else Running s)"
| "monitor_loop env (Suc n) s =
     (if stopped s then Exited s
      else (case monitor_iteration env s of
              Raised e s1 \<Rightarrow> Crashed e s1
            | Next s1 \<Rightarrow> monitor_loop env n s1))"

section \<open>Subscribing and unsubscribing\<close>

text \<open>
  The reply of a command, or the exception that left the handler (the one
  \<open>_get_notify_origins\<close> raised).
\<close>

datatype reply = AlreadySubscribed | Subscribed | NotSubscribed | Unsubscribed

definition set_notify_origins :: "json list \<Rightarrow> 'w state \<Rightarrow> 'w state" where
  "set_notify_origins origins s =
     save_config (s\<lparr>config := (config s)\<lparr>notify_origins := JArr (dedupe_list origins)\<rparr>\<rparr>)"

definition subscribe :: "'w env \<Rightarrow> pystr \<Rightarrow> 'w state \<Rightarrow> (exn + reply) \<times> 'w state" where
  "subscribe env origin s =
     (case get_notify_origins env s of
        Inl e \<Rightarrow> (Inl e, s)
      | Inr origins \<Rightarrow>
          if JStr origin \<in> set origins then (Inr AlreadySubscribed, s)
          else (Inr Subscribed, set_notify_origins (origins @ [JStr origin]) s))"

definition unsubscribe :: "'w env \<Rightarrow> pystr \<Rightarrow> 'w state \<Rightarrow> (exn + reply) \<times> 'w state" where
  "unsubscribe env origin s =
     (case get_notify_origins env s of
        Inl e \<Rightarrow> (Inl e, s)
      | Inr origins \<Rightarrow>
          if JStr origin \<notin> set origins then (Inr NotSubscribed, s)
          else (Inr Unsubscribed, set_notify_origins (remove1 (JStr origin) origins) s))"

section \<open>Singleton coordinator\<close>

text \<open>
  Tasks and plugin instances are objects with identity, so they live in stores indexed by
  a number.  A task is pending until it ends; \<open>cancel()\<close> on a pending task requests its
  cancellation, and \<open>done()\<close> holds once it has ended.
\<close>

datatype task_status = Pending | Cancelling | Finished

record plugin_instance =
  monitor_task :: "nat option"
  stopped_flag :: bool

record process =
  task_status_of :: "nat \<Rightarrow> task_status"
  next_task :: nat
  instances :: "nat \<Rightarrow> plugin_instance"
  GLOBAL_MONITOR_TASK :: "nat option"
  GLOBAL_MONITOR_OWNER :: "nat option"

definition task_done :: "process \<Rightarrow> nat \<Rightarrow> bool" where
  "task_done p t \<longleftrightarrow> task_status_of p t = Finished"

definition cancel :: "nat \<Rightarrow> process \<Rightarrow> process" where
  "cancel t p = (if task_done p t then p else p\<lparr>task_status_of := (task_status_of p)(t := Cancelling)\<rparr>)"

definition set_stopped :: "nat \<Rightarrow> bool \<Rightarrow> process \<Rightarrow> process" where
  "set_stopped i b p = p\<lparr>instances := (instances p)(i := (instances p i)\<lparr>stopped_flag := b\<rparr>)\<rparr>"

definition set_monitor_task :: "nat \<Rightarrow> nat option \<Rightarrow> process \<Rightarrow> process" where
  "set_monitor_task i t p = p\<lparr>instances := (instances p)(i := (instances p i)\<lparr>monitor_task := t\<rparr>)\<rparr>"








section \<open>Notions used to state the properties\<close>

text \<open>A device entry that is a JSON object, and one whose type code is 1 (a meter).\<close>

fun is_object :: "json \<Rightarrow> bool" where
  "is_object (JObj kvs) = True"
| "is_object v = False"

fun is_meter :: "json \<Rightarrow> bool" where
  "is_meter (JObj device) = py_eq_int (lookup device (py ''DeviceType'') JNull) 1"
| "is_meter v = False"

text \<open>
  A subscribe or unsubscribe command, and the state after one; \<open>holds_destinations s ds\<close>
  says that the stored destination list of \<open>s\<close> is the list \<open>ds\<close> of destination
  identifiers (strings), or is absent when \<open>ds\<close> is empty.
\<close>

datatype command = Sub pystr | Unsub pystr

fun run_command :: "'w env \<Rightarrow> command \<Rightarrow> 'w state \<Rightarrow> 'w state" where
  "run_command env (Sub d) s = snd (subscribe env d s)"
| "run_command env (Unsub d) s = snd (unsubscribe env d s)"

definition holds_destinations :: "'w state \<Rightarrow> pystr list \<Rightarrow> bool" where
  "holds_destinations s ds \<longleftrightarrow>
     notify_origins (config s) = JArr (map JStr ds) \<or> (notify_origins (config s) = JNull \<and> ds = [])"

text \<open>How many times \<open>login_and_get_token\<close> and \<open>_request_balance\<close> have been called.\<close>

abbreviation logins :: "'w state \<Rightarrow> nat" where
  "logins s \<equiv> count_list (trace s) EvLogin"

abbreviation fetches :: "'w state \<Rightarrow> nat" where
  "fetches s \<equiv> count_list (trace s) EvRequest"

text \<open>
  The two persisted fields the monitor loop owns, and the relation between two states
  that neither has changed in the configuration, and that what is saved of them is what
  was saved before or what the configuration held.
\<close>

definition check_fields :: "astrbot_config \<Rightarrow> json \<times> json" where
  "check_fields c = (last_check_ts c, last_balance c)"

definition keeps_check_fields :: "'w state \<Rightarrow> 'w state \<Rightarrow> bool" where
  "keeps_check_fields s s' \<longleftrightarrow>
     check_fields (config s') = check_fields (config s)
     \<and> (check_fields (saved s') = check_fields (saved s) \<or> check_fields (saved s') = check_fields (config s))"

text \<open>The trace of \<open>s'\<close> continues that of \<open>s\<close>; it continues it with a call of the balance client.\<close>

definition extends :: "'w state \<Rightarrow> 'w state \<Rightarrow> bool" where
  "extends s s' \<longleftrightarrow> (\<exists>evs. trace s' = trace s @ evs)"



text \<open>
  \<open>now\<close> of an iteration that starts in \<open>s\<close>; \<open>s\<close> after the stored timestamp has been
  cleared and saved; and the two conditions under which the loop checks the balance
  (\<open>auto_check\<close> on, at least one destination), with the destinations it reads.
\<close>

abbreviation now_of :: "'w env \<Rightarrow> 'w state \<Rightarrow> real" where
  "now_of env s \<equiv> time_now env (world s)"

abbreviation cleared :: "'w state \<Rightarrow> 'w state" where
  "cleared s \<equiv> save_config (s\<lparr>config := (config s)\<lparr>last_check_ts := JNull\<rparr>\<rparr>)"

abbreviation gate_open :: "'w env \<Rightarrow> 'w state \<Rightarrow> json list \<Rightarrow> bool" where
  "gate_open env s origins \<equiv>
     truthy (get_config (auto_check (config s)) (JBool True))
     \<and> get_notify_origins env s = Inr origins \<and> origins \<noteq> []"

text \<open>The state an iteration ends in.\<close>

fun outcome_state :: "'s outcome \<Rightarrow> 's" where
  "outcome_state (Next s) = s"
| "outcome_state (Raised e s) = s"

text \<open>
  The accuracy of rounding in the binary64 format, on the magnitudes from 1 to \<open>2 ^ 1000\<close>:
  the result is finite and off by at most the fraction \<open>1 / 2 ^ 53\<close> of the exact value.
\<close>

definition accurate_rounding :: "(real \<Rightarrow> pyfloat) \<Rightarrow> bool" where
  "accurate_rounding rnd \<longleftrightarrow>
     (\<forall>x. 1 \<le> \<bar>x\<bar> \<and> \<bar>x\<bar> \<le> 2 ^ 1000 \<longrightarrow> (\<exists>z. rnd x = Finite z \<and> \<bar>z - x\<bar> \<le> \<bar>x\<bar> / 2 ^ 53))"





section \<open>Example inputs\<close>

text \<open>
  Balance responses: the scenario of the specification, a failure, no device, no meter,
  and a response whose \<open>Data\<close> member is \<open>null\<close>.
\<close>

definition ex_device :: "(pystr \<times> json) list" where
  "ex_device =
     [(py ''DeviceType'', JInt 1), (py ''DeviceName'', JStr (py ''Meter1'')),
      (py ''DeviceBalance'', JFloat (Finite 15.5)), (py ''DevicePrice'', JFloat (Finite 0.6)),
      (py ''UpdateTime'', JStr (py ''2024-01-01 10:00'')),
      (py ''IsOnline'', JInt 1), (py ''SwitchStatus'', JInt 0)]"

definition ex_other :: "(pystr \<times> json) list" where
  "ex_other = [(py ''DeviceType'', JInt 2), (py ''DeviceName'', JStr (py ''Water1''))]"

definition ex_room :: "(pystr \<times> json) list" where
  "ex_room = [(py ''RoomName'', JStr (py ''A101'')), (py ''DevicesList'', JArr [JObj ex_other, JObj ex_device])]"

definition ex_data :: "(pystr \<times> json) list" where
  "ex_data = [(py ''Tag'', JInt 1), (py ''Data'', JObj ex_room)]"

definition ex_fail :: "(pystr \<times> json) list" where
  "ex_fail = [(py ''Tag'', JInt 0), (py ''Message'', JStr (py ''busy''))]"

definition ex_empty :: "(pystr \<times> json) list" where
  "ex_empty =
     [(py ''Tag'', JInt 1),
      (py ''Data'', JObj [(py ''RoomName'', JStr (py ''A101'')), (py ''DevicesList'', JArr [])])]"

definition ex_water :: "(pystr \<times> json) list" where
  "ex_water = [(py ''Tag'', JInt 1), (py ''Data'', JObj [(py ''DevicesList'', JArr [JObj ex_other])])]"

definition ex_null_data :: "(pystr \<times> json) list" where
  "ex_null_data = [(py ''Tag'', JInt 1), (py ''Data'', JNull)]"

text \<open>
  An example world: a clock and the number of balance requests answered so far.  The
  first balance request is answered with a session-expired failure, every later one with
  the scenario's response; each request takes a second; a login succeeds and sets the
  cookie; every delivery goes through.

  The example rounding leaves a result within the range of the binary64 format as it is
  (on the numbers used below binary64 arithmetic is exact as well) and gives an infinity
  beyond it.  The example \<open>json.loads\<close> knows the texts used below: one that opens more
  lists than the decoder's recursion limit allows, the empty list, a number, and texts
  that are not JSON.
\<close>

record ex_world =
  clock :: real
  requests :: nat

definition ex_expired :: "(pystr \<times> json) list" where
  "ex_expired = [(py ''Tag'', JInt 0), (py ''Message'', JStr (expired_keywords ! 2))]"

fun seconds :: "number \<Rightarrow> real" where
  "seconds (IntNum n) = of_int n"
| "seconds (FloatNum f) = float_value f"

definition ex_round :: "real \<Rightarrow> pyfloat" where
  "ex_round x = (if \<bar>x\<bar> < 2 ^ 1024 then Finite x else if 0 < x then PosInf else NegInf)"

definition ex_json_loads :: "pystr \<Rightarrow> exn + json" where
  "ex_json_loads s =
     (if 1000 < length (takeWhile (\<lambda>c. c = 91) s)
      then Inl (RecursionError
                  (py ''maximum recursion depth exceeded while decoding a JSON array from a unicode string''))
      else if s = py ''[]'' then Inr (JArr [])
      else if s = py ''7'' then Inr (JInt 7)
      else Inl (JSONDecodeError (py ''Expecting value: line 1 column 1 (char 0)'')))"

definition ex_env :: "ex_world env" where
  "ex_env =
     \<lparr> time_now = clock,
       sleep = (\<lambda>d w. w\<lparr>clock := clock w + seconds d\<rparr>),
       post_login = (\<lambda>a p w. (Inr (JObj [(py ''Tag'', JInt 1)], Some (py ''abc123'')), w\<lparr>clock := clock w + 1\<rparr>)),
       post_balance = (\<lambda>t w. (Inr (JObj (if requests w = 0 then ex_expired else ex_data)),
                               w\<lparr>clock := clock w + 1, requests := Suc (requests w)\<rparr>)),
       send_message = (\<lambda>origin p w. (None, w)),
       py_repr = (\<lambda>v. []),
       int_of_str = (\<lambda>s. None),
       float_of_str = (\<lambda>s. None),
       round_float = ex_round,
       json_loads = ex_json_loads \<rparr>"

definition ex_config :: astrbot_config where
  "ex_config =
     \<lparr> electricity_token = JStr (py ''old''),
       electricity_account = JStr (py ''user''),
       electricity_password = JStr (py ''secret''),
       auto_check = JNull,
       check_interval_minutes = JInt 60,
       threshold = JNull,
       auto_refresh_token = JNull,
       last_balance = JFloat (Finite 10),
       last_check_ts = JNull,
       notify_origins = JArr [JStr (py ''group1'')],
       use_onebot11_card = JNull \<rparr>"

definition ex_state :: "ex_world state" where
  "ex_state =
     \<lparr> world = \<lparr>clock = 100000, requests = 0\<rparr>,
       config = ex_config,
       saved = ex_config,
       token = JStr (py ''old''),
       account = JStr (py ''user''),
       password = JStr (py ''secret''),
       stopped = False,
       trace = [] \<rparr>"

text \<open>The example state after its first balance request.\<close>

definition ex_state1 :: "ex_world state" where
  "ex_state1 = ex_state\<lparr>world := \<lparr>clock = 100001, requests = 1\<rparr>, trace := [EvRequest]\<rparr>"

text \<open>The example state with another configuration, saved.\<close>

definition ex_with :: "astrbot_config \<Rightarrow> ex_world state" where
  "ex_with c = ex_state\<lparr>config := c, saved := c\<rparr>"

text \<open>
  Variants of the example state: without an account (so an expired session cannot be
  renewed); half an interval after the last check; with a timestamp in the future; the
  same without an account, without a destination, and with a destination text of 100000
  opening brackets; a second after the last check with an interval of \<open>10 ^ 400\<close>
  minutes; and with that destination text and no timestamp.
\<close>

definition ex_nocreds :: "ex_world state" where
  "ex_nocreds = (ex_with (ex_config\<lparr>electricity_account := JNull\<rparr>))\<lparr>account := JNull\<rparr>"

definition ex_wait :: "ex_world state" where
  "ex_wait = ex_with (ex_config\<lparr>last_check_ts := JFloat (Finite 98200)\<rparr>)"

definition ex_future :: "ex_world state" where
  "ex_future = ex_with (ex_config\<lparr>last_check_ts := JFloat (Finite 110000)\<rparr>)"

definition ex_future_nocreds :: "ex_world state" where
  "ex_future_nocreds =
     (ex_with (ex_config\<lparr>electricity_account := JNull, last_check_ts := JFloat (Finite 110000)\<rparr>))
       \<lparr>account := JNull\<rparr>"

definition ex_future_alone :: "ex_world state" where
  "ex_future_alone = ex_with (ex_config\<lparr>last_check_ts := JFloat (Finite 110000), notify_origins := JNull\<rparr>)"


definition ex_huge :: "ex_world state" where
  "ex_huge = ex_with (ex_config\<lparr>check_interval_minutes := JInt (10 ^ 400),
                                last_check_ts := JFloat (Finite 99999)\<rparr>)"

definition ex_deep :: "ex_world state" where
  "ex_deep = ex_with (ex_config\<lparr>notify_origins := JStr (replicate 100000 91)\<rparr>)"


section \<open>Substring search\<close>

lemma starts_with_iff: "starts_with k hay \<longleftrightarrow> (\<exists>suf. hay = k @ suf)"
  by (induction k hay rule: starts_with.induct) auto

lemma str_contains_iff: "str_contains k hay \<longleftrightarrow> (\<exists>pre suf. hay = pre @ k @ suf)"
proof (induction hay)
  case Nil
  then show ?case by simp
next
  case (Cons c cs)
  show ?case
  proof
    assume "str_contains k (c # cs)"
    then consider "starts_with k (c # cs)" | "str_contains k cs" by auto
    then show "\<exists>pre suf. c # cs = pre @ k @ suf"
    proof cases
      case 1
      then obtain suf where "c # cs = k @ suf" by (auto simp: starts_with_iff)
      then have "c # cs = [] @ k @ suf" by simp
      then show ?thesis by blast
    next
      case 2
      then obtain pre suf where "cs = pre @ k @ suf" using Cons.IH by auto
      then have "c # cs = (c # pre) @ k @ suf" by simp
      then show ?thesis by blast
    qed
  next
    assume "\<exists>pre suf. c # cs = pre @ k @ suf"
    then obtain pre suf where eq: "c # cs = pre @ k @ suf" by auto
    show "str_contains k (c # cs)"
    proof (cases pre)
      case Nil
      then have "starts_with k (c # cs)" using eq by (auto simp: starts_with_iff)
      then show ?thesis by simp
    next
      case (Cons p ps)
      then have "cs = ps @ k @ suf" using eq by simp
      then have "str_contains k cs" using Cons.IH by blast
      then show ?thesis by simp
    qed
  qed
qed

text \<open>
  C2 (as amended).  A message is classified as session-expired exactly when it contains
  one of the listed phrases as a contiguous substring, compared code point by code point
  (so with the letter case of the phrase as listed).
\<close>

theorem looks_like_login_expired_iff_exact_substring:
  "looks_like_login_expired message \<longleftrightarrow>
     (\<exists>keyword \<in> set expired_keywords. \<exists>pre suf. message = pre @ keyword @ suf)"
  by (simp add: looks_like_login_expired_def list_ex_iff str_contains_iff)

text \<open>
  C2 (as stated) fails: the message below is the seventh phrase with its ASCII letters in
  upper case, so it differs from a listed phrase only in letter case and the
  case-insensitive reading classifies it as expired, but the code does not.
\<close>

theorem looks_like_login_expired_case_counterexample:
  "ascii_lower (py ''TOKEN'' @ [232, 191, 8225, 230, 339, 376]) = ascii_lower (expired_keywords ! 6)
   \<and> spec_looks_like_login_expired (py ''TOKEN'' @ [232, 191, 8225, 230, 339, 376])
   \<and> \<not> looks_like_login_expired (py ''TOKEN'' @ [232, 191, 8225, 230, 339, 376])"
  by (simp add: looks_like_login_expired_def spec_looks_like_login_expired_def expired_keywords_def
      ascii_lower_def py_def)

section \<open>Parsing the balance response\<close>

lemma scan_devices_first:
  "list_all is_object pre \<Longrightarrow> \<not> list_ex is_meter pre \<Longrightarrow> is_meter (JObj device) \<Longrightarrow>
   scan_devices room (pre @ JObj device # post) = Inr (snapshot_of room device)"
proof (induction pre)
  case Nil
  then show ?case by simp
next
  case (Cons d ds)
  then obtain kvs where "d = JObj kvs" by (cases d) auto
  with Cons show ?case by simp
qed

lemma scan_devices_none:
  "list_all is_object devices \<Longrightarrow> \<not> list_ex is_meter devices \<Longrightarrow>
   scan_devices room devices = Inl NoMeterDevice"
proof (induction devices)
  case Nil
  then show ?case by simp
next
  case (Cons d ds)
  then obtain kvs where "d = JObj kvs" by (cases d) auto
  with Cons show ?case by simp
qed

lemma scan_devices_success:
  "scan_devices room devices = Inr snap \<Longrightarrow>
   \<exists>pre device post. devices = pre @ JObj device # post \<and> list_all is_object pre
      \<and> \<not> list_ex is_meter pre \<and> is_meter (JObj device) \<and> snap = snapshot_of room device"
proof (induction room devices rule: scan_devices.induct)
  case (1 room)
  then show ?case by simp
next
  case (2 room device rest)
  show ?case
  proof (cases "py_eq_int (lookup device (py ''DeviceType'') JNull) 1")
    case True
    then have "JObj device # rest = [] @ JObj device # rest \<and> list_all is_object []
        \<and> \<not> list_ex is_meter [] \<and> is_meter (JObj device) \<and> snap = snapshot_of room device"
      using 2 by simp
    then show ?thesis by blast
  next
    case False
    then have "scan_devices room rest = Inr snap" using 2 by simp
    then obtain pre d post where r: "rest = pre @ JObj d # post" "list_all is_object pre"
      "\<not> list_ex is_meter pre" "is_meter (JObj d)" "snap = snapshot_of room d"
      using 2 False by blast
    then have "JObj device # rest = (JObj device # pre) @ JObj d # post
        \<and> list_all is_object (JObj device # pre) \<and> \<not> list_ex is_meter (JObj device # pre)
        \<and> is_meter (JObj d) \<and> snap = snapshot_of room d"
      using False by simp
    then show ?thesis by blast
  qed
qed simp_all

lemma parse_api_error:
  "\<not> py_eq_int (lookup data (py ''Tag'') JNull) 1 \<Longrightarrow>
   parse_balance repr (JObj data) = Inl (ApiError (py_format repr (lookup data (py ''Message'') JNull)))"
  by simp

lemma parse_inner:
  assumes "py_eq_int (lookup data (py ''Tag'') JNull) 1" "lookup data (py ''Data'') (JObj []) = JObj inner"
  shows "parse_balance repr (JObj data) =
     (if \<not> truthy (lookup inner (py ''DevicesList'') (JArr [])) then Inl NoDevicesBound
      else (case py_iter (lookup inner (py ''DevicesList'') (JArr [])) of
              Inl e \<Rightarrow> Inl e
            | Inr devices \<Rightarrow>
                scan_devices (lookup inner (py ''RoomName'') (JStr (py ''unknown''))) devices))"
  using assms by (simp add: devices_list_of_def room_name_of_def split: sum.splits)

lemma scan_strings: "cs \<noteq> [] \<Longrightarrow> scan_devices room (map (\<lambda>c. JStr (f c)) cs) = Inl (no_attribute_get (JStr (f (hd cs))))"
  by (cases cs) simp_all

lemma parse_success:
  assumes "parse_balance repr (JObj data) = Inr snap"
  shows "\<exists>inner devices pre device post.
      py_eq_int (lookup data (py ''Tag'') JNull) 1
      \<and> lookup data (py ''Data'') (JObj []) = JObj inner
      \<and> lookup inner (py ''DevicesList'') (JArr []) = JArr devices
      \<and> devices = pre @ JObj device # post
      \<and> list_all is_object pre \<and> \<not> list_ex is_meter pre \<and> is_meter (JObj device)
      \<and> snap = snapshot_of (lookup inner (py ''RoomName'') (JStr (py ''unknown''))) device"
proof -
  have tag: "py_eq_int (lookup data (py ''Tag'') JNull) 1"
    using assms by (auto split: if_splits)
  obtain inner where inner: "lookup data (py ''Data'') (JObj []) = JObj inner"
    using assms tag by (cases "lookup data (py ''Data'') (JObj [])") (simp_all add: devices_list_of_def)
  let ?dl = "lookup inner (py ''DevicesList'') (JArr [])"
  let ?room = "lookup inner (py ''RoomName'') (JStr (py ''unknown''))"
  note p = parse_inner [OF tag inner, of repr]
  have truthy: "truthy ?dl" using assms p by (auto split: if_splits)
  obtain devices where dl: "?dl = JArr devices"
    using assms p truthy by (cases ?dl) (simp_all add: scan_strings)
  then have "scan_devices ?room devices = Inr snap" using assms p truthy by simp
  then obtain pre device post where "devices = pre @ JObj device # post" "list_all is_object pre"
    "\<not> list_ex is_meter pre" "is_meter (JObj device)" "snap = snapshot_of ?room device"
    using scan_devices_success by blast
  then show ?thesis using tag inner dl by blast
qed

text \<open>
  With tag 1 and a \<open>Data\<close> member that is not an object (\<open>null\<close>, say), the second \<open>get\<close>
  raises \<open>AttributeError\<close>.
\<close>

lemma parse_data_not_object:
  assumes "py_eq_int (lookup data (py ''Tag'') JNull) 1" "\<not> is_object (lookup data (py ''Data'') (JObj []))"
  shows "parse_balance repr (JObj data) = Inl (no_attribute_get (lookup data (py ''Data'') (JObj [])))"
  using assms by (cases "lookup data (py ''Data'') (JObj [])") (simp_all add: devices_list_of_def)

text \<open>
  C3 (as amended).  For a balance response that is a JSON object: when the status tag is
  not 1 the parse fails with \<open>ApiError\<close> carrying the remote message (a string message
  verbatim).  When the tag is 1 and the \<open>Data\<close> member is an object (or absent): with an
  empty device list the parse fails with \<open>NoDevicesBound\<close>; with a non-empty list of
  device objects none of which has type code 1 it fails with \<open>NoMeterDevice\<close>; and when
  a device of type code 1 is preceded in the list only by device objects of other types,
  the result is the snapshot of that device.  Every successful result arises in this way,
  from the first device of type code 1 in the device list of the response, and its
  \<open>is_online\<close> and \<open>switch_status\<close> say whether that device's \<open>IsOnline\<close> and \<open>SwitchStatus\<close>
  equal 1.
\<close>

theorem parse_balance_outcomes:
  "(\<not> py_eq_int (lookup data (py ''Tag'') JNull) 1 \<longrightarrow>
      parse_balance repr (JObj data) = Inl (ApiError (py_format repr (lookup data (py ''Message'') JNull)))
      \<and> (\<forall>m. lookup data (py ''Message'') JNull = JStr m \<longrightarrow> parse_balance repr (JObj data) = Inl (ApiError m)))
   \<and> (py_eq_int (lookup data (py ''Tag'') JNull) 1 \<longrightarrow> lookup data (py ''Data'') (JObj []) = JObj inner \<longrightarrow>
        (\<not> truthy (lookup inner (py ''DevicesList'') (JArr [])) \<longrightarrow>
           parse_balance repr (JObj data) = Inl NoDevicesBound)
        \<and> (lookup inner (py ''DevicesList'') (JArr []) = JArr devices \<longrightarrow> devices \<noteq> [] \<longrightarrow>
             (list_all is_object devices \<longrightarrow> \<not> list_ex is_meter devices \<longrightarrow>
                parse_balance repr (JObj data) = Inl NoMeterDevice)
             \<and> (\<forall>pre device post.
                  devices = pre @ JObj device # post \<longrightarrow> list_all is_object pre \<longrightarrow>
                  \<not> list_ex is_meter pre \<longrightarrow> is_meter (JObj device) \<longrightarrow>
                    parse_balance repr (JObj data)
                      = Inr (snapshot_of (lookup inner (py ''RoomName'') (JStr (py ''unknown''))) device))))
   \<and> (parse_balance repr (JObj data) = Inr snap \<longrightarrow>
        (\<exists>inner devices pre device post.
            py_eq_int (lookup data (py ''Tag'') JNull) 1
            \<and> lookup data (py ''Data'') (JObj []) = JObj inner
            \<and> lookup inner (py ''DevicesList'') (JArr []) = JArr devices
            \<and> devices = pre @ JObj device # post
            \<and> list_all is_object pre \<and> \<not> list_ex is_meter pre \<and> is_meter (JObj device)
            \<and> snap = snapshot_of (lookup inner (py ''RoomName'') (JStr (py ''unknown''))) device
            \<and> is_online snap = py_eq_int (lookup device (py ''IsOnline'') JNull) 1
            \<and> switch_status snap = py_eq_int (lookup device (py ''SwitchStatus'') JNull) 1
            \<and> (\<forall>c. lookup device (py ''IsOnline'') JNull = JInt c \<longrightarrow> (is_online snap \<longleftrightarrow> c = 1))
            \<and> (\<forall>c. lookup device (py ''SwitchStatus'') JNull = JInt c \<longrightarrow> (switch_status snap \<longleftrightarrow> c = 1))))"
proof (intro conjI impI allI)
  assume t: "\<not> py_eq_int (lookup data (py ''Tag'') JNull) 1"
  show e: "parse_balance repr (JObj data) = Inl (ApiError (py_format repr (lookup data (py ''Message'') JNull)))"
    using t by (rule parse_api_error)
  fix m assume "lookup data (py ''Message'') JNull = JStr m"
  then show "parse_balance repr (JObj data) = Inl (ApiError m)" using e by simp
next
  assume a: "py_eq_int (lookup data (py ''Tag'') JNull) 1" "lookup data (py ''Data'') (JObj []) = JObj inner"
  note p = parse_inner [OF a, of repr]
  {
    assume "\<not> truthy (lookup inner (py ''DevicesList'') (JArr []))"
    then show "parse_balance repr (JObj data) = Inl NoDevicesBound" using p by simp
  }
  assume d: "lookup inner (py ''DevicesList'') (JArr []) = JArr devices" "devices \<noteq> []"
  {
    assume "list_all is_object devices" "\<not> list_ex is_meter devices"
    then show "parse_balance repr (JObj data) = Inl NoMeterDevice"
      using p d by (simp add: scan_devices_none)
  }
  fix pre device post
  assume "devices = pre @ JObj device # post" "list_all is_object pre" "\<not> list_ex is_meter pre"
    "is_meter (JObj device)"
  then show "parse_balance repr (JObj data)
      = Inr (snapshot_of (lookup inner (py ''RoomName'') (JStr (py ''unknown''))) device)"
    using p d scan_devices_first [of pre device] by simp
next
  assume "parse_balance repr (JObj data) = Inr snap"
  then obtain inner devices pre device post where f:
    "py_eq_int (lookup data (py ''Tag'') JNull) 1"
    "lookup data (py ''Data'') (JObj []) = JObj inner"
    "lookup inner (py ''DevicesList'') (JArr []) = JArr devices"
    "devices = pre @ JObj device # post"
    "list_all is_object pre" "\<not> list_ex is_meter pre" "is_meter (JObj device)"
    "snap = snapshot_of (lookup inner (py ''RoomName'') (JStr (py ''unknown''))) device"
    using parse_success by blast
  have "is_online snap = py_eq_int (lookup device (py ''IsOnline'') JNull) 1
      \<and> switch_status snap = py_eq_int (lookup device (py ''SwitchStatus'') JNull) 1
      \<and> (\<forall>c. lookup device (py ''IsOnline'') JNull = JInt c \<longrightarrow> (is_online snap \<longleftrightarrow> c = 1))
      \<and> (\<forall>c. lookup device (py ''SwitchStatus'') JNull = JInt c \<longrightarrow> (switch_status snap \<longleftrightarrow> c = 1))"
    using f(8) by (simp add: snapshot_of_def)
  with f show "\<exists>inner devices pre device post.
            py_eq_int (lookup data (py ''Tag'') JNull) 1
            \<and> lookup data (py ''Data'') (JObj []) = JObj inner
            \<and> lookup inner (py ''DevicesList'') (JArr []) = JArr devices
            \<and> devices = pre @ JObj device # post
            \<and> list_all is_object pre \<and> \<not> list_ex is_meter pre \<and> is_meter (JObj device)
            \<and> snap = snapshot_of (lookup inner (py ''RoomName'') (JStr (py ''unknown''))) device
            \<and> is_online snap = py_eq_int (lookup device (py ''IsOnline'') JNull) 1
            \<and> switch_status snap = py_eq_int (lookup device (py ''SwitchStatus'') JNull) 1
            \<and> (\<forall>c. lookup device (py ''IsOnline'') JNull = JInt c \<longrightarrow> (is_online snap \<longleftrightarrow> c = 1))
            \<and> (\<forall>c. lookup device (py ''SwitchStatus'') JNull = JInt c \<longrightarrow> (switch_status snap \<longleftrightarrow> c = 1))"
    by blast
qed

lemma ex_lookups:
  "lookup ex_fail (py ''Tag'') JNull = JInt 0"
  "lookup ex_fail (py ''Message'') JNull = JStr (py ''busy'')"
  "lookup ex_empty (py ''Tag'') JNull = JInt 1"
  "lookup ex_empty (py ''Data'') (JObj []) = JObj [(py ''RoomName'', JStr (py ''A101'')), (py ''DevicesList'', JArr [])]"
  "lookup [(py ''RoomName'', JStr (py ''A101'')), (py ''DevicesList'', JArr [])] (py ''DevicesList'') (JArr []) = JArr []"
  "lookup ex_water (py ''Tag'') JNull = JInt 1"
  "lookup ex_water (py ''Data'') (JObj []) = JObj [(py ''DevicesList'', JArr [JObj ex_other])]"
  "lookup [(py ''DevicesList'', JArr [JObj ex_other])] (py ''DevicesList'') (JArr []) = JArr [JObj ex_other]"
  "lookup ex_data (py ''Tag'') JNull = JInt 1"
  "lookup ex_data (py ''Data'') (JObj []) = JObj ex_room"
  "lookup ex_room (py ''DevicesList'') (JArr []) = JArr [JObj ex_other, JObj ex_device]"
  "lookup ex_room (py ''RoomName'') (JStr (py ''unknown'')) = JStr (py ''A101'')"
  by (simp_all add: ex_fail_def ex_empty_def ex_water_def ex_data_def ex_room_def py_def)

lemma ex_devices:
  "is_meter (JObj ex_device)" "\<not> is_meter (JObj ex_other)"
  "lookup ex_device (py ''IsOnline'') JNull = JInt 1" "lookup ex_device (py ''SwitchStatus'') JNull = JInt 0"
  "lookup ex_device (py ''DeviceBalance'') JNull = JFloat (Finite 15.5)"
  by (simp_all add: ex_device_def ex_other_def py_def)

text \<open>
  The scenarios, each through the theorem: a failure, no device, no meter, and a meter
  that comes second in the list, is online and is switched off.
\<close>

theorem parse_balance_outcomes_witness:
  "\<not> py_eq_int (lookup ex_fail (py ''Tag'') JNull) 1
   \<and> parse_balance (\<lambda>v. []) (JObj ex_fail) = Inl (ApiError (py ''busy''))
   \<and> py_eq_int (lookup ex_empty (py ''Tag'') JNull) 1
   \<and> parse_balance (\<lambda>v. []) (JObj ex_empty) = Inl NoDevicesBound
   \<and> py_eq_int (lookup ex_water (py ''Tag'') JNull) 1
   \<and> list_all is_object [JObj ex_other] \<and> \<not> list_ex is_meter [JObj ex_other]
   \<and> parse_balance (\<lambda>v. []) (JObj ex_water) = Inl NoMeterDevice
   \<and> py_eq_int (lookup ex_data (py ''Tag'') JNull) 1
   \<and> lookup ex_data (py ''Data'') (JObj []) = JObj ex_room
   \<and> lookup ex_room (py ''DevicesList'') (JArr []) = JArr ([JObj ex_other] @ JObj ex_device # [])
   \<and> is_meter (JObj ex_device)
   \<and> parse_balance (\<lambda>v. []) (JObj ex_data) = Inr (snapshot_of (JStr (py ''A101'')) ex_device)
   \<and> is_online (snapshot_of (JStr (py ''A101'')) ex_device)
   \<and> \<not> switch_status (snapshot_of (JStr (py ''A101'')) ex_device)
   \<and> balance (snapshot_of (JStr (py ''A101'')) ex_device) = JFloat (Finite 15.5)
   \<and> (\<exists>pre device post. [JObj ex_other, JObj ex_device] = pre @ JObj device # post
         \<and> list_all is_object pre \<and> \<not> list_ex is_meter pre \<and> is_meter (JObj device)
         \<and> snapshot_of (JStr (py ''A101'')) ex_device = snapshot_of (JStr (py ''A101'')) device
         \<and> is_online (snapshot_of (JStr (py ''A101'')) ex_device)
             = py_eq_int (lookup device (py ''IsOnline'') JNull) 1)"
proof -
  have fail: "parse_balance (\<lambda>v. []) (JObj ex_fail) = Inl (ApiError (py ''busy''))"
    using parse_balance_outcomes [of ex_fail "\<lambda>v. []"]
    by (simp del: parse_balance.simps lookup.simps add: ex_lookups)
  have empty: "parse_balance (\<lambda>v. []) (JObj ex_empty) = Inl NoDevicesBound"
    using parse_balance_outcomes [of ex_empty "\<lambda>v. []" "[(py ''RoomName'', JStr (py ''A101'')), (py ''DevicesList'', JArr [])]"]
    by (simp del: parse_balance.simps lookup.simps add: ex_lookups)
  have water: "parse_balance (\<lambda>v. []) (JObj ex_water) = Inl NoMeterDevice"
    using parse_balance_outcomes [of ex_water "\<lambda>v. []" "[(py ''DevicesList'', JArr [JObj ex_other])]" "[JObj ex_other]"]
    by (simp del: parse_balance.simps lookup.simps is_meter.simps add: ex_lookups ex_devices)
  have "\<forall>pre device post.
          [JObj ex_other, JObj ex_device] = pre @ JObj device # post \<longrightarrow> list_all is_object pre \<longrightarrow>
          \<not> list_ex is_meter pre \<longrightarrow> is_meter (JObj device) \<longrightarrow>
            parse_balance (\<lambda>v. []) (JObj ex_data) = Inr (snapshot_of (JStr (py ''A101'')) device)"
    using parse_balance_outcomes [of ex_data "\<lambda>v. []" ex_room "[JObj ex_other, JObj ex_device]"]
    by (simp del: parse_balance.simps lookup.simps is_meter.simps add: ex_lookups)
  then have "[JObj ex_other, JObj ex_device] = [JObj ex_other] @ JObj ex_device # [] \<longrightarrow>
      list_all is_object [JObj ex_other] \<longrightarrow> \<not> list_ex is_meter [JObj ex_other] \<longrightarrow> is_meter (JObj ex_device) \<longrightarrow>
        parse_balance (\<lambda>v. []) (JObj ex_data) = Inr (snapshot_of (JStr (py ''A101'')) ex_device)"
    by blast
  then have data: "parse_balance (\<lambda>v. []) (JObj ex_data) = Inr (snapshot_of (JStr (py ''A101'')) ex_device)"
    by (simp del: is_meter.simps add: ex_devices)
  have flags: "is_online (snapshot_of (JStr (py ''A101'')) ex_device)"
    "\<not> switch_status (snapshot_of (JStr (py ''A101'')) ex_device)"
    "balance (snapshot_of (JStr (py ''A101'')) ex_device) = JFloat (Finite 15.5)"
    by (simp_all del: lookup.simps add: snapshot_of_def ex_devices)
  have "\<exists>inner devices pre device post.
            py_eq_int (lookup ex_data (py ''Tag'') JNull) 1
            \<and> lookup ex_data (py ''Data'') (JObj []) = JObj inner
            \<and> lookup inner (py ''DevicesList'') (JArr []) = JArr devices
            \<and> devices = pre @ JObj device # post
            \<and> list_all is_object pre \<and> \<not> list_ex is_meter pre \<and> is_meter (JObj device)
            \<and> snapshot_of (JStr (py ''A101'')) ex_device
                = snapshot_of (lookup inner (py ''RoomName'') (JStr (py ''unknown''))) device
            \<and> is_online (snapshot_of (JStr (py ''A101'')) ex_device)
                = py_eq_int (lookup device (py ''IsOnline'') JNull) 1
            \<and> switch_status (snapshot_of (JStr (py ''A101'')) ex_device)
                = py_eq_int (lookup device (py ''SwitchStatus'') JNull) 1
            \<and> (\<forall>c. lookup device (py ''IsOnline'') JNull = JInt c \<longrightarrow>
                  (is_online (snapshot_of (JStr (py ''A101'')) ex_device) \<longleftrightarrow> c = 1))
            \<and> (\<forall>c. lookup device (py ''SwitchStatus'') JNull = JInt c \<longrightarrow>
                  (switch_status (snapshot_of (JStr (py ''A101'')) ex_device) \<longleftrightarrow> c = 1))"
    using parse_balance_outcomes [of ex_data "\<lambda>v. []" ex_room "[]" "snapshot_of (JStr (py ''A101'')) ex_device"] data
    by blast
  then obtain inner devices pre device post where f:
    "lookup ex_data (py ''Data'') (JObj []) = JObj inner"
    "lookup inner (py ''DevicesList'') (JArr []) = JArr devices"
    "devices = pre @ JObj device # post"
    "list_all is_object pre" "\<not> list_ex is_meter pre" "is_meter (JObj device)"
    "snapshot_of (JStr (py ''A101'')) ex_device
       = snapshot_of (lookup inner (py ''RoomName'') (JStr (py ''unknown''))) device"
    "is_online (snapshot_of (JStr (py ''A101'')) ex_device) = py_eq_int (lookup device (py ''IsOnline'') JNull) 1"
    by blast
  have i: "inner = ex_room" using f(1) ex_lookups(10) by simp
  then have d: "devices = [JObj ex_other, JObj ex_device]" using f(2) ex_lookups(11) by simp
  have from_list: "\<exists>pre device post. [JObj ex_other, JObj ex_device] = pre @ JObj device # post
         \<and> list_all is_object pre \<and> \<not> list_ex is_meter pre \<and> is_meter (JObj device)
         \<and> snapshot_of (JStr (py ''A101'')) ex_device = snapshot_of (JStr (py ''A101'')) device
         \<and> is_online (snapshot_of (JStr (py ''A101'')) ex_device)
             = py_eq_int (lookup device (py ''IsOnline'') JNull) 1"
    using f(3-8) i d ex_lookups(12) by metis
  have given: "\<not> py_eq_int (lookup ex_fail (py ''Tag'') JNull) 1
      \<and> py_eq_int (lookup ex_empty (py ''Tag'') JNull) 1
      \<and> py_eq_int (lookup ex_water (py ''Tag'') JNull) 1
      \<and> list_all is_object [JObj ex_other] \<and> \<not> list_ex is_meter [JObj ex_other]
      \<and> py_eq_int (lookup ex_data (py ''Tag'') JNull) 1
      \<and> lookup ex_data (py ''Data'') (JObj []) = JObj ex_room
      \<and> lookup ex_room (py ''DevicesList'') (JArr []) = JArr ([JObj ex_other] @ JObj ex_device # [])
      \<and> is_meter (JObj ex_device)"
    by (simp del: lookup.simps is_meter.simps add: ex_lookups ex_devices)
  show ?thesis using given fail empty water data flags from_list by blast
qed

text \<open>
  C3 (as stated) fails: the response below is a JSON object with the success tag and no
  devices at all (its \<open>Data\<close> member is \<open>null\<close>), and the parse ends with an
  \<open>AttributeError\<close>, which is none of the three failures and not a snapshot.
\<close>

theorem parse_balance_null_data_counterexample:
  "py_eq_int (lookup ex_null_data (py ''Tag'') JNull) 1
   \<and> lookup ex_null_data (py ''Data'') (JObj []) = JNull
   \<and> parse_balance (\<lambda>v. []) (JObj ex_null_data)
       = Inl (AttributeError ([39] @ py ''NoneType'' @ [39] @ py '' object has no attribute '' @ [39] @ py ''get'' @ [39]))
   \<and> parse_balance (\<lambda>v. []) (JObj ex_null_data) \<noteq> Inl NoDevicesBound
   \<and> parse_balance (\<lambda>v. []) (JObj ex_null_data) \<noteq> Inl NoMeterDevice"
  by (simp add: ex_null_data_def devices_list_of_def no_attribute_get_def NoDevicesBound_def NoMeterDevice_def py_def)

section \<open>Destination lists\<close>

lemma py_strip_empty_iff: "py_strip s = [] \<longleftrightarrow> (\<forall>c \<in> set s. is_space c)"
proof
  assume "py_strip s = []"
  then have "dropWhile is_space (rev (dropWhile is_space s)) = []" by (simp add: py_strip_def)
  then have all: "\<forall>c \<in> set (dropWhile is_space s). is_space c"
    using dropWhile_eq_Nil_conv [of is_space "rev (dropWhile is_space s)"] by simp
  have "dropWhile is_space s = []"
  proof (rule ccontr)
    assume ne: "dropWhile is_space s \<noteq> []"
    then have "\<not> is_space (hd (dropWhile is_space s))" by (rule hd_dropWhile)
    moreover have "hd (dropWhile is_space s) \<in> set (dropWhile is_space s)" using ne by simp
    ultimately show False using all by blast
  qed
  then show "\<forall>c \<in> set s. is_space c"
    using dropWhile_eq_Nil_conv [of is_space s] by blast
next
  assume "\<forall>c \<in> set s. is_space c"
  then show "py_strip s = []" by (auto simp: py_strip_def dest: set_dropWhileD)
qed

lemma last_dropWhile: "dropWhile P xs \<noteq> [] \<Longrightarrow> last (dropWhile P xs) = last xs"
  by (induction xs) auto

lemma py_strip_ends:
  assumes "py_strip s \<noteq> []"
  shows "\<not> is_space (hd (py_strip s))" "\<not> is_space (last (py_strip s))"
proof -
  let ?t = "dropWhile is_space s"
  let ?u = "dropWhile is_space (rev ?t)"
  have u: "?u \<noteq> []" using assms by (simp add: py_strip_def)
  have t: "?t \<noteq> []"
  proof
    assume e: "?t = []"
    have "?u = []" unfolding e by simp
    with u show False by simp
  qed
  have "last (py_strip s) = hd ?u" using u by (simp add: py_strip_def last_rev)
  then show "\<not> is_space (last (py_strip s))" using hd_dropWhile [OF u] by simp
  have "hd (py_strip s) = last ?u" using u by (simp add: py_strip_def hd_rev)
  also have "\<dots> = last (rev ?t)" using u by (rule last_dropWhile)
  also have "\<dots> = hd ?t" using t by (simp add: last_rev)
  finally show "\<not> is_space (hd (py_strip s))" using hd_dropWhile [OF t] by simp
qed

lemma py_strip_subset: "set (py_strip s) \<subseteq> set s"
proof
  fix c assume "c \<in> set (py_strip s)"
  then have "c \<in> set (dropWhile is_space (rev (dropWhile is_space s)))" by (simp add: py_strip_def)
  then have "c \<in> set (rev (dropWhile is_space s))" by (rule set_dropWhileD)
  then have "c \<in> set (dropWhile is_space s)" by simp
  then show "c \<in> set s" by (rule set_dropWhileD)
qed

lemma split_on_items: "w \<in> set (split_on sep s) \<Longrightarrow> set w \<subseteq> set s \<and> sep \<notin> set w"
proof (induction s arbitrary: w)
  case Nil
  then show ?case by simp
next
  case (Cons c cs)
  show ?case
  proof (cases "c = sep")
    case True
    with Cons show ?thesis by auto
  next
    case False
    show ?thesis
    proof (cases "split_on sep cs")
      case Nil
      with Cons False show ?thesis by auto
    next
      case (Cons v vs)
      with Cons.prems False have "w = c # v \<or> w \<in> set vs" by auto
      then show ?thesis
      proof
        assume "w = c # v"
        moreover have "set v \<subseteq> set cs \<and> sep \<notin> set v" using Cons.IH [of v] Cons by simp
        ultimately show ?thesis using False by auto
      next
        assume "w \<in> set vs"
        then have "set w \<subseteq> set cs \<and> sep \<notin> set w" using Cons.IH [of w] Cons by simp
        then show ?thesis by auto
      qed
    qed
  qed
qed

lemma blank_string_no_items:
  assumes "py_strip s = []"
  shows "filter (\<lambda>item. py_strip item \<noteq> []) (split_on sep s) = []"
proof -
  have "\<forall>c \<in> set s. is_space c" using assms by (simp add: py_strip_empty_iff)
  then have "\<forall>w \<in> set (split_on sep s). py_strip w = []"
    using split_on_items py_strip_empty_iff by blast
  then show ?thesis by (simp add: filter_empty_conv)
qed

text \<open>The test \<open>if value.strip()\<close> is redundant: a blank string has no item that is not blank.\<close>

lemma comma_items_eq:
  "comma_items s = map (\<lambda>item. JStr (py_strip item)) (filter (\<lambda>item. py_strip item \<noteq> []) (split_on 44 s))"
  by (simp add: comma_items_def blank_string_no_items)

lemma comma_items_shape:
  assumes "item \<in> set (comma_items s)"
  shows "\<exists>w. item = JStr w \<and> w \<noteq> [] \<and> \<not> is_space (hd w) \<and> \<not> is_space (last w) \<and> 44 \<notin> set w"
proof -
  obtain piece where p: "piece \<in> set (split_on 44 s)" "py_strip piece \<noteq> []" "item = JStr (py_strip piece)"
    using assms by (auto simp: comma_items_eq)
  have "44 \<notin> set piece" using split_on_items [OF p(1)] by simp
  then have "44 \<notin> set (py_strip piece)" using py_strip_subset [of piece] by blast
  then show ?thesis using p py_strip_ends [OF p(2)] by blast
qed

lemma normalize_list_raises:
  "(\<exists>e. normalize_list loads v = Inl e) \<longleftrightarrow> (\<exists>s e. v = JStr s \<and> loads s = Inl e \<and> \<not> is_json_decode_error e)"
proof (cases v)
  case (JStr s)
  show ?thesis
  proof (cases "loads s")
    case (Inl e)
    then show ?thesis using JStr by auto
  next
    case (Inr parsed)
    then show ?thesis using JStr by (cases parsed) auto
  qed
qed simp_all

text \<open>
  C10 (as amended).  Reading the destination list raises exactly when the stored value is
  a string on which \<open>json.loads\<close> raises an exception other than \<open>JSONDecodeError\<close>, and
  then that exception is the result.  Otherwise it returns a list: the empty list for
  \<open>None\<close>, a list as it is, for a string the list that \<open>json.loads\<close> returns and, when
  \<open>json.loads\<close> raises \<open>JSONDecodeError\<close> or returns something that is not a list, the
  comma-separated items of the string, stripped, without the blank ones (so each item is
  a non-empty string without a comma that neither starts nor ends with white space), and
  the empty list for a value of any other type.
\<close>

theorem normalize_list_cases:
  "normalize_list loads JNull = Inr []
   \<and> normalize_list loads (JArr xs) = Inr xs
   \<and> (loads s = Inr (JArr parsed) \<longrightarrow> normalize_list loads (JStr s) = Inr parsed)
   \<and> (loads s = Inr other \<longrightarrow> (\<forall>parsed. other \<noteq> JArr parsed) \<longrightarrow>
        normalize_list loads (JStr s) = Inr (comma_items s))
   \<and> (loads s = Inl e \<longrightarrow> is_json_decode_error e \<longrightarrow> normalize_list loads (JStr s) = Inr (comma_items s))
   \<and> (loads s = Inl e \<longrightarrow> \<not> is_json_decode_error e \<longrightarrow> normalize_list loads (JStr s) = Inl e)
   \<and> comma_items s
       = map (\<lambda>item. JStr (py_strip item)) (filter (\<lambda>item. py_strip item \<noteq> []) (split_on 44 s))
   \<and> (\<forall>item \<in> set (comma_items s).
         \<exists>w. item = JStr w \<and> w \<noteq> [] \<and> \<not> is_space (hd w) \<and> \<not> is_space (last w) \<and> 44 \<notin> set w)
   \<and> normalize_list loads (JBool b) = Inr []
   \<and> normalize_list loads (JInt i) = Inr []
   \<and> normalize_list loads (JFloat r) = Inr []
   \<and> normalize_list loads (JObj kvs) = Inr []
   \<and> ((\<exists>e. normalize_list loads v = Inl e)
        \<longleftrightarrow> (\<exists>s e. v = JStr s \<and> loads s = Inl e \<and> \<not> is_json_decode_error e))
   \<and> get_notify_origins env st = normalize_list (json_loads env) (notify_origins (config st))"
proof (intro conjI impI ballI)
  assume "loads s = Inr other" "\<forall>parsed. other \<noteq> JArr parsed"
  then show "normalize_list loads (JStr s) = Inr (comma_items s)" by (cases other) simp_all
next
  show "comma_items s
       = map (\<lambda>item. JStr (py_strip item)) (filter (\<lambda>item. py_strip item \<noteq> []) (split_on 44 s))"
    by (rule comma_items_eq)
next
  fix item assume "item \<in> set (comma_items s)"
  then show "\<exists>w. item = JStr w \<and> w \<noteq> [] \<and> \<not> is_space (hd w) \<and> \<not> is_space (last w) \<and> 44 \<notin> set w"
    by (rule comma_items_shape)
next
  show "(\<exists>e. normalize_list loads v = Inl e)
        \<longleftrightarrow> (\<exists>s e. v = JStr s \<and> loads s = Inl e \<and> \<not> is_json_decode_error e)"
    by (rule normalize_list_raises)
qed (simp_all add: get_notify_origins_def)

lemma ex_loads:
  "ex_json_loads (py ''group1, group2,,'') = Inl (JSONDecodeError (py ''Expecting value: line 1 column 1 (char 0)''))"
  "ex_json_loads (py ''[]'') = Inr (JArr [])"
  "ex_json_loads (py ''7'') = Inr (JInt 7)"
  "ex_json_loads (replicate 100000 91)
     = Inl (RecursionError (py ''maximum recursion depth exceeded while decoding a JSON array from a unicode string''))"
  by (simp_all add: ex_json_loads_def py_def takeWhile_replicate)

lemma ex_items:
  "comma_items (py ''group1, group2,,'') = [JStr (py ''group1''), JStr (py ''group2'')]"
  "comma_items (py ''7'') = [JStr (py ''7'')]"
  by (simp_all add: comma_items_def py_strip_def is_space_def py_def)

text \<open>
  A text that is not JSON gives its items, the text of the empty list gives the empty
  list, the text of a number gives the text as its one item, and the exception of a text
  that is nested too deep comes out as it is.
\<close>

theorem normalize_list_cases_witness:
  "ex_json_loads (py ''group1, group2,,'') = Inl (JSONDecodeError (py ''Expecting value: line 1 column 1 (char 0)''))
   \<and> is_json_decode_error (JSONDecodeError (py ''Expecting value: line 1 column 1 (char 0)''))
   \<and> normalize_list ex_json_loads (JStr (py ''group1, group2,,'')) = Inr [JStr (py ''group1''), JStr (py ''group2'')]
   \<and> ex_json_loads (py ''[]'') = Inr (JArr [])
   \<and> normalize_list ex_json_loads (JStr (py ''[]'')) = Inr []
   \<and> ex_json_loads (py ''7'') = Inr (JInt 7)
   \<and> normalize_list ex_json_loads (JStr (py ''7'')) = Inr [JStr (py ''7'')]
   \<and> \<not> is_json_decode_error
         (RecursionError (py ''maximum recursion depth exceeded while decoding a JSON array from a unicode string''))
   \<and> normalize_list ex_json_loads (JStr (replicate 100000 91))
       = Inl (RecursionError (py ''maximum recursion depth exceeded while decoding a JSON array from a unicode string''))"
proof -
  note n = normalize_list.simps [simp del]
  note inst = normalize_list_cases [where loads = ex_json_loads and xs = "[]" and parsed = "[]"
      and b = True and i = 0 and r = NaN and kvs = "[]" and v = JNull and env = ex_env and st = ex_state]
  have 1: "normalize_list ex_json_loads (JStr (py ''group1, group2,,'')) = Inr (comma_items (py ''group1, group2,,''))"
    using inst [where s = "py ''group1, group2,,''" and other = JNull
        and e = "JSONDecodeError (py ''Expecting value: line 1 column 1 (char 0)'')"]
    by (simp add: ex_loads)
  have 2: "normalize_list ex_json_loads (JStr (py ''[]'')) = Inr []"
    using inst [where s = "py ''[]''" and other = JNull and e = "ValueError []"] by (simp add: ex_loads)
  have 3: "normalize_list ex_json_loads (JStr (py ''7'')) = Inr (comma_items (py ''7''))"
    using inst [where s = "py ''7''" and other = "JInt 7" and e = "ValueError []"] by (simp add: ex_loads)
  have 4: "normalize_list ex_json_loads (JStr (replicate 100000 91))
       = Inl (RecursionError (py ''maximum recursion depth exceeded while decoding a JSON array from a unicode string''))"
    using inst [where s = "replicate 100000 91" and other = JNull
        and e = "RecursionError (py ''maximum recursion depth exceeded while decoding a JSON array from a unicode string'')"]
    by (simp add: ex_loads)
  show ?thesis using 1 2 3 4 by (simp add: ex_loads ex_items)
qed

text \<open>
  C10 (as stated) fails: the stored value below is a string of 100000 opening brackets,
  on which \<open>json.loads\<close> raises \<open>RecursionError\<close>; reading the destination list raises it
  too, and so does the iteration of the monitor loop that reads the list.
\<close>

theorem normalize_list_raises_counterexample:
  "notify_origins (config ex_deep) = JStr (replicate 100000 91)
   \<and> json_loads ex_env (replicate 100000 91)
       = Inl (RecursionError (py ''maximum recursion depth exceeded while decoding a JSON array from a unicode string''))
   \<and> get_notify_origins ex_env ex_deep
       = Inl (RecursionError (py ''maximum recursion depth exceeded while decoding a JSON array from a unicode string''))
   \<and> monitor_iteration ex_env ex_deep
       = Raised (RecursionError (py ''maximum recursion depth exceeded while decoding a JSON array from a unicode string''))
           ex_deep"
proof -
  have c: "config ex_deep = ex_config\<lparr>notify_origins := JStr (replicate 100000 91)\<rparr>"
    "world ex_deep = \<lparr>clock = 100000, requests = 0\<rparr>"
    by (simp_all add: ex_deep_def ex_with_def ex_state_def)
  have l: "json_loads ex_env = ex_json_loads" "int_of_str ex_env = (\<lambda>s. None)" by (simp_all add: ex_env_def)
  have g: "get_notify_origins ex_env ex_deep
       = Inl (RecursionError (py ''maximum recursion depth exceeded while decoding a JSON array from a unicode string''))"
    by (simp add: get_notify_origins_def c l ex_loads)
  have i: "interval_minutes_of ex_env (config ex_deep) = Inr 60"
    by (simp add: interval_minutes_of_def c l ex_config_def get_config_def)
  have d: "due_check ex_env 60 ex_deep = Due ex_deep"
    by (simp add: due_check_def c ex_config_def get_config_def)
  have a: "truthy (get_config (auto_check (config ex_deep)) (JBool True))"
    by (simp add: c ex_config_def get_config_def)
  show ?thesis using g i d a by (simp add: monitor_iteration_def check_and_sleep_def c l ex_loads)
qed

lemma dedupe_loop_distinct:
  "distinct result \<Longrightarrow> seen = set result \<Longrightarrow>
   distinct (dedupe_loop items seen result) \<and> set (dedupe_loop items seen result) = set result \<union> set items"
proof (induction items arbitrary: seen result)
  case Nil
  then show ?case by simp
next
  case (Cons x xs)
  show ?case
  proof (cases "x \<in> seen")
    case True
    then show ?thesis using Cons.IH [of result seen] Cons.prems by auto
  next
    case False
    then show ?thesis using Cons.IH [of "result @ [x]" "insert x seen"] Cons.prems by auto
  qed
qed

lemma dedupe_list_distinct: "distinct (dedupe_list items)" and dedupe_list_set: "set (dedupe_list items) = set items"
  using dedupe_loop_distinct [of "[]" "{}" items] by (simp_all add: dedupe_list_def)

lemma dedupe_loop_id:
  "distinct items \<Longrightarrow> set items \<inter> seen = {} \<Longrightarrow> dedupe_loop items seen result = result @ items"
  by (induction items arbitrary: seen result) auto

lemma dedupe_list_id: "distinct items \<Longrightarrow> dedupe_list items = items"
  by (simp add: dedupe_list_def dedupe_loop_id)

lemma dedupe_loop_map:
  "inj f \<Longrightarrow> dedupe_loop (map f zs) (f ` seen) (map f res) = map f (dedupe_loop zs seen res)"
proof (induction zs arbitrary: seen res)
  case Nil
  then show ?case by simp
next
  case (Cons z zs)
  have mem: "f z \<in> f ` seen \<longleftrightarrow> z \<in> seen" using Cons.prems by (auto dest: injD)
  show ?case
  proof (cases "z \<in> seen")
    case True
    then show ?thesis using Cons.IH [of seen res] Cons.prems mem by simp
  next
    case False
    then show ?thesis using Cons.IH [of "insert z seen" "res @ [z]"] Cons.prems mem by simp
  qed
qed

lemma dedupe_list_map: "inj f \<Longrightarrow> dedupe_list (map f zs) = map f (dedupe_list zs)"
  using dedupe_loop_map [of f zs "{}" "[]"] by (simp add: dedupe_list_def)

lemma inj_JStr: "inj JStr"
  by (simp add: inj_def)

lemma held_origins: "holds_destinations s ds \<Longrightarrow> get_notify_origins env s = Inr (map JStr ds)"
  by (auto simp: holds_destinations_def get_notify_origins_def)

lemma set_origins_holds:
  "holds_destinations (set_notify_origins (map JStr zs) s) (dedupe_list zs)"
  by (simp add: holds_destinations_def set_notify_origins_def save_config_def emit_def
      dedupe_list_map inj_JStr)

lemma set_origins_saved:
  "notify_origins (saved (set_notify_origins (map JStr zs) s)) = JArr (map JStr (dedupe_list zs))"
  by (simp add: set_notify_origins_def save_config_def emit_def dedupe_list_map inj_JStr)

lemma subscribe_eq:
  assumes "holds_destinations s ds"
  shows "subscribe env d s =
     (if d \<in> set ds then (Inr AlreadySubscribed, s)
      else (Inr Subscribed, set_notify_origins (map JStr (ds @ [d])) s))"
  using held_origins [OF assms, of env] by (auto simp: subscribe_def)

lemma remove1_map_JStr: "remove1 (JStr d) (map JStr ds) = map JStr (remove1 d ds)"
  by (induction ds) auto

lemma unsubscribe_eq:
  assumes "holds_destinations s ds"
  shows "unsubscribe env d s =
     (if d \<notin> set ds then (Inr NotSubscribed, s)
      else (Inr Unsubscribed, set_notify_origins (map JStr (remove1 d ds)) s))"
  using held_origins [OF assms, of env] by (auto simp: unsubscribe_def remove1_map_JStr)

lemma subscribe_holds:
  assumes "holds_destinations s ds"
  shows "holds_destinations (snd (subscribe env d s)) (if d \<in> set ds then ds else dedupe_list (ds @ [d]))"
  using assms set_origins_holds [of "ds @ [d]" s] by (simp add: subscribe_eq [OF assms])

lemma unsubscribe_holds:
  assumes "holds_destinations s ds"
  shows "holds_destinations (snd (unsubscribe env d s)) (if d \<notin> set ds then ds else dedupe_list (remove1 d ds))"
  using assms set_origins_holds [of "remove1 d ds" s] by (simp add: unsubscribe_eq [OF assms])

lemma filter_absent: "d \<notin> set ds \<Longrightarrow> filter (\<lambda>x. x \<noteq> d) ds = ds"
  by (induction ds) auto

lemma remove1_distinct_filter: "distinct ds \<Longrightarrow> remove1 d ds = filter (\<lambda>x. x \<noteq> d) ds"
  by (induction ds) (auto simp: filter_absent)

lemma subscribe_twice:
  assumes "holds_destinations s ds"
  shows "subscribe env d (snd (subscribe env d s)) = (Inr AlreadySubscribed, snd (subscribe env d s))"
proof -
  let ?ds1 = "if d \<in> set ds then ds else dedupe_list (ds @ [d])"
  have h: "holds_destinations (snd (subscribe env d s)) ?ds1" using assms by (rule subscribe_holds)
  have "d \<in> set ?ds1" by (simp add: dedupe_list_set)
  then show ?thesis using subscribe_eq [OF h, of env d] by simp
qed

lemma run_commands_distinct:
  "holds_destinations s ds \<Longrightarrow> distinct ds \<Longrightarrow>
   \<exists>ds'. holds_destinations (fold (run_command env) cmds s) ds' \<and> distinct ds'"
proof (induction cmds arbitrary: s ds)
  case Nil
  then show ?case by auto
next
  case (Cons c cs)
  show ?case
  proof (cases c)
    case (Sub d)
    let ?ds1 = "if d \<in> set ds then ds else dedupe_list (ds @ [d])"
    have "holds_destinations (run_command env c s) ?ds1"
      using subscribe_holds [OF Cons.prems(1)] Sub by simp
    moreover have "distinct ?ds1" using Cons.prems(2) by (simp add: dedupe_list_distinct)
    ultimately show ?thesis using Cons.IH by simp
  next
    case (Unsub d)
    let ?ds1 = "if d \<notin> set ds then ds else dedupe_list (remove1 d ds)"
    have "holds_destinations (run_command env c s) ?ds1"
      using unsubscribe_holds [OF Cons.prems(1)] Unsub by simp
    moreover have "distinct ?ds1" using Cons.prems(2) by (simp add: dedupe_list_distinct)
    ultimately show ?thesis using Cons.IH by simp
  qed
qed

text \<open>
  C7.  For a stored list of destinations: a second \<open>subscribe\<close> of the same destination
  is answered "already subscribed" and changes nothing, so the list is as long as after
  the first; \<open>unsubscribe\<close> of a destination that is not in the list changes nothing;
  every list that \<open>subscribe\<close> or \<open>unsubscribe\<close> writes is free of duplicates; a
  duplicate-free list stays so through any sequence of commands; a new destination goes
  to the end and a removed one leaves the order of the others as it was.
\<close>

theorem subscribe_unsubscribe_idempotent:
  assumes held: "holds_destinations s ds"
  shows "subscribe env d (snd (subscribe env d s)) = (Inr AlreadySubscribed, snd (subscribe env d s))
    \<and> (\<exists>once twice.
          get_notify_origins env (snd (subscribe env d s)) = Inr once
          \<and> get_notify_origins env (snd (subscribe env d (snd (subscribe env d s)))) = Inr twice
          \<and> length twice = length once \<and> twice = once)
    \<and> (d \<notin> set ds \<longrightarrow> unsubscribe env d s = (Inr NotSubscribed, s))
    \<and> (fst (subscribe env d s) = Inr Subscribed \<longrightarrow>
         (\<exists>ds1. distinct ds1 \<and> d \<in> set ds1
            \<and> notify_origins (saved (snd (subscribe env d s))) = JArr (map JStr ds1)
            \<and> holds_destinations (snd (subscribe env d s)) ds1))
    \<and> (fst (unsubscribe env d s) = Inr Unsubscribed \<longrightarrow>
         (\<exists>ds1. distinct ds1
            \<and> notify_origins (saved (snd (unsubscribe env d s))) = JArr (map JStr ds1)
            \<and> holds_destinations (snd (unsubscribe env d s)) ds1))
    \<and> (distinct ds \<longrightarrow>
         (\<exists>ds1. holds_destinations (fold (run_command env) cmds s) ds1 \<and> distinct ds1))
    \<and> (distinct ds \<longrightarrow> d \<notin> set ds \<longrightarrow> holds_destinations (snd (subscribe env d s)) (ds @ [d]))
    \<and> (distinct ds \<longrightarrow> d \<in> set ds \<longrightarrow>
         holds_destinations (snd (unsubscribe env d s)) (filter (\<lambda>x. x \<noteq> d) ds))"
proof (intro conjI impI)
  show twice: "subscribe env d (snd (subscribe env d s)) = (Inr AlreadySubscribed, snd (subscribe env d s))"
    using held by (rule subscribe_twice)
  let ?ds1 = "if d \<in> set ds then ds else dedupe_list (ds @ [d])"
  have h1: "holds_destinations (snd (subscribe env d s)) ?ds1" using held by (rule subscribe_holds)
  have once: "get_notify_origins env (snd (subscribe env d s)) = Inr (map JStr ?ds1)"
    using h1 by (rule held_origins)
  show "\<exists>once twice.
          get_notify_origins env (snd (subscribe env d s)) = Inr once
          \<and> get_notify_origins env (snd (subscribe env d (snd (subscribe env d s)))) = Inr twice
          \<and> length twice = length once \<and> twice = once"
    using once by (simp add: twice)
next
  assume "d \<notin> set ds"
  then show "unsubscribe env d s = (Inr NotSubscribed, s)" by (simp add: unsubscribe_eq [OF held])
next
  assume "fst (subscribe env d s) = Inr Subscribed"
  then have new: "d \<notin> set ds" by (auto simp: subscribe_eq [OF held] split: if_splits)
  let ?ds1 = "dedupe_list (ds @ [d])"
  have "distinct ?ds1" "d \<in> set ?ds1" by (simp_all add: dedupe_list_distinct dedupe_list_set)
  moreover have "notify_origins (saved (snd (subscribe env d s))) = JArr (map JStr ?ds1)"
    using new set_origins_saved [of "ds @ [d]" s] by (simp add: subscribe_eq [OF held])
  moreover have "holds_destinations (snd (subscribe env d s)) ?ds1"
    using subscribe_holds [OF held, of env d] new by simp
  ultimately show "\<exists>ds1. distinct ds1 \<and> d \<in> set ds1
            \<and> notify_origins (saved (snd (subscribe env d s))) = JArr (map JStr ds1)
            \<and> holds_destinations (snd (subscribe env d s)) ds1" by blast
next
  assume "fst (unsubscribe env d s) = Inr Unsubscribed"
  then have old: "d \<in> set ds" by (auto simp: unsubscribe_eq [OF held] split: if_splits)
  let ?ds1 = "dedupe_list (remove1 d ds)"
  have "distinct ?ds1" by (simp add: dedupe_list_distinct)
  moreover have "notify_origins (saved (snd (unsubscribe env d s))) = JArr (map JStr ?ds1)"
    using old set_origins_saved [of "remove1 d ds" s] by (simp add: unsubscribe_eq [OF held])
  moreover have "holds_destinations (snd (unsubscribe env d s)) ?ds1"
    using unsubscribe_holds [OF held, of env d] old by simp
  ultimately show "\<exists>ds1. distinct ds1
            \<and> notify_origins (saved (snd (unsubscribe env d s))) = JArr (map JStr ds1)
            \<and> holds_destinations (snd (unsubscribe env d s)) ds1" by blast
next
  assume "distinct ds"
  then show "\<exists>ds1. holds_destinations (fold (run_command env) cmds s) ds1 \<and> distinct ds1"
    using held run_commands_distinct by blast
next
  assume "distinct ds" "d \<notin> set ds"
  then show "holds_destinations (snd (subscribe env d s)) (ds @ [d])"
    using subscribe_holds [OF held, of env d] by (simp add: dedupe_list_id)
next
  assume "distinct ds" "d \<in> set ds"
  then have "dedupe_list (remove1 d ds) = filter (\<lambda>x. x \<noteq> d) ds"
    by (simp add: dedupe_list_id remove1_distinct_filter)
  then show "holds_destinations (snd (unsubscribe env d s)) (filter (\<lambda>x. x \<noteq> d) ds)"
    using unsubscribe_holds [OF held, of env d] \<open>d \<in> set ds\<close> by simp
qed


lemma ex_held: "holds_destinations ex_state [py ''group1'']"
  by (simp add: holds_destinations_def ex_state_def ex_config_def)

text \<open>The example state holds one destination; a second one is subscribed, the first unsubscribed.\<close>

theorem subscribe_unsubscribe_idempotent_witness:
  "holds_destinations ex_state [py ''group1'']
   \<and> subscribe ex_env (py ''group2'') (snd (subscribe ex_env (py ''group2'') ex_state))
       = (Inr AlreadySubscribed, snd (subscribe ex_env (py ''group2'') ex_state))
   \<and> py ''group2'' \<notin> set [py ''group1'']
   \<and> unsubscribe ex_env (py ''group2'') ex_state = (Inr NotSubscribed, ex_state)
   \<and> distinct [py ''group1'']
   \<and> holds_destinations (snd (subscribe ex_env (py ''group2'') ex_state)) [py ''group1'', py ''group2'']
   \<and> fst (subscribe ex_env (py ''group2'') ex_state) = Inr Subscribed
   \<and> notify_origins (saved (snd (subscribe ex_env (py ''group2'') ex_state)))
       = JArr [JStr (py ''group1''), JStr (py ''group2'')]
   \<and> py ''group1'' \<in> set [py ''group1'']
   \<and> fst (unsubscribe ex_env (py ''group1'') ex_state) = Inr Unsubscribed
   \<and> holds_destinations (snd (unsubscribe ex_env (py ''group1'') ex_state)) []"
proof -
  have neq: "py ''group2'' \<noteq> py ''group1''" by (simp add: py_def)
  have sub: "fst (subscribe ex_env (py ''group2'') ex_state) = Inr Subscribed"
    using neq by (simp add: subscribe_eq [OF ex_held])
  have unsub: "fst (unsubscribe ex_env (py ''group1'') ex_state) = Inr Unsubscribed"
    by (simp add: unsubscribe_eq [OF ex_held])
  have saved: "notify_origins (saved (snd (subscribe ex_env (py ''group2'') ex_state)))
       = JArr [JStr (py ''group1''), JStr (py ''group2'')]"
    using neq set_origins_saved [of "[py ''group1'', py ''group2'']" ex_state]
    by (simp add: subscribe_eq [OF ex_held] dedupe_list_def)
  show ?thesis
    using subscribe_unsubscribe_idempotent [OF ex_held, of ex_env "py ''group2''" "[]"]
      subscribe_unsubscribe_idempotent [OF ex_held, of ex_env "py ''group1''" "[]"]
      ex_held neq sub unsub saved
    by simp
qed
section \<open>Balance client: retry on session expiry\<close>

lemma login_trace:
  "login_and_get_token env s = (r, s') \<Longrightarrow>
     (trace s' = trace s @ [EvLogin] \<or> trace s' = trace s @ [EvLogin, EvSave])
     \<and> account s' = account s \<and> password s' = password s"
  by (auto simp: login_and_get_token_def Let_def emit_def save_config_def
      split: if_splits prod.splits sum.splits option.splits)

lemma login_counts:
  assumes "login_and_get_token env s = (r, s')"
  shows "logins s' = logins s + 1" "fetches s' = fetches s"
    "account s' = account s" "password s' = password s"
  using login_trace [OF assms] by auto

lemma request_trace:
  "request_balance env s = (r, s') \<Longrightarrow>
     trace s' = trace s @ [EvRequest] \<and> account s' = account s \<and> password s' = password s"
  by (auto simp: request_balance_def Let_def emit_def split: if_splits prod.splits)

lemma fetch_counts:
  assumes "fetch_and_parse env s = (r, s')"
  shows "logins s' = logins s" "fetches s' = fetches s + 1"
    "account s' = account s" "password s' = password s"
proof -
  obtain r0 s0 where rb: "request_balance env s = (r0, s0)" by (cases "request_balance env s")
  then have "s' = s0" using assms by (auto simp: fetch_and_parse_def split: sum.splits)
  then show "logins s' = logins s" "fetches s' = fetches s + 1"
    "account s' = account s" "password s' = password s"
    using request_trace [OF rb] by auto
qed

lemma login_first_counts:
  assumes "login_first env ar s = (r, s')"
  shows "logins s' \<le> logins s + 1" "account s' = account s" "password s' = password s"
proof -
  show "logins s' \<le> logins s + 1" "account s' = account s" "password s' = password s"
  proof (atomize (full), cases "ar \<and> \<not> truthy (token s) \<and> truthy (account s) \<and> truthy (password s)")
    case True
    obtain r0 s0 where l: "login_and_get_token env s = (r0, s0)" by (cases "login_and_get_token env s")
    then have "s' = s0" using assms True by (auto simp: login_first_def split: sum.splits)
    then show "logins s' \<le> logins s + 1 \<and> account s' = account s \<and> password s' = password s"
      using login_counts [OF l] by simp
  next
    case False
    then have "s' = s" using assms by (auto simp: login_first_def)
    then show "logins s' \<le> logins s + 1 \<and> account s' = account s \<and> password s' = password s" by simp
  qed
qed

lemma try_block_counts:
  assumes "try_block env ar s = (r, s')"
  shows "logins s' \<le> logins s + 1" "account s' = account s" "password s' = password s"
proof -
  obtain r0 s0 where lf: "login_first env ar s = (r0, s0)" by (cases "login_first env ar s")
  show "logins s' \<le> logins s + 1" "account s' = account s" "password s' = password s"
  proof (atomize (full), cases r0)
    case None
    then have "fetch_and_parse env s0 = (r, s')" using assms lf by (simp add: try_block_def)
    then show "logins s' \<le> logins s + 1 \<and> account s' = account s \<and> password s' = password s"
      using fetch_counts [of env s0 r s'] login_first_counts [OF lf] by simp
  next
    case (Some e)
    then have "s' = s0" using assms lf by (simp add: try_block_def)
    then show "logins s' \<le> logins s + 1 \<and> account s' = account s \<and> password s' = password s"
      using login_first_counts [OF lf] by simp
  qed
qed

lemma retry_counts:
  assumes "retry env s = (r, s')"
  shows "logins s' = logins s + 1" "fetches s' \<le> fetches s + 1"
proof -
  obtain r0 s0 where l: "login_and_get_token env s = (r0, s0)" by (cases "login_and_get_token env s")
  show "logins s' = logins s + 1" "fetches s' \<le> fetches s + 1"
  proof (atomize (full), cases r0)
    case (Inl e)
    then have "s' = s0" using assms l by (simp add: retry_def)
    then show "logins s' = logins s + 1 \<and> fetches s' \<le> fetches s + 1" using login_counts [OF l] by simp
  next
    case (Inr t)
    then have "fetch_and_parse env s0 = (r, s')" using assms l by (simp add: retry_def)
    then show "logins s' = logins s + 1 \<and> fetches s' \<le> fetches s + 1"
      using fetch_counts [of env s0 r s'] login_counts [OF l] by simp
  qed
qed

lemma get_balance_handler_logins:
  "logins (snd (get_balance env ar s)) \<le> logins (snd (try_block env ar s)) + 1"
proof -
  obtain r1 s1 where tb: "try_block env ar s = (r1, s1)" by (cases "try_block env ar s")
  obtain r2 s2 where rt: "retry env s1 = (r2, s2)" by (cases "retry env s1")
  have "snd (get_balance env ar s) = s1 \<or> snd (get_balance env ar s) = s2"
    using tb rt by (auto simp: get_balance_def split: sum.splits)
  then show ?thesis using tb retry_counts(1) [OF rt] by auto
qed

lemma get_balance_logins:
  "logins (snd (get_balance env ar s)) \<le> logins s + 2"
proof -
  obtain r1 s1 where tb: "try_block env ar s = (r1, s1)" by (cases "try_block env ar s")
  show ?thesis using get_balance_handler_logins [of env ar s] try_block_counts(1) [OF tb] tb by simp
qed

lemma get_balance_first_failure:
  assumes creds: "truthy (account s)" "truthy (password s)"
    and first: "login_first env True s = (None, s0)"
    and fail: "fetch_and_parse env s0 = (Inl exc, s1)"
  shows "get_balance env True s =
     (if looks_like_login_expired (exc_str exc) then retry env s1 else (Inl exc, s1))"
proof -
  have tb: "try_block env True s = (Inl exc, s1)" using first fail by (simp add: try_block_def)
  have "account s1 = account s" "password s1 = password s"
    using try_block_counts [OF tb] by simp_all
  then show ?thesis using creds tb by (simp add: get_balance_def)
qed


text \<open>
  C1.  A call of \<open>get_balance\<close> with \<open>auto_retry\<close> set and both credentials present,
  whose login-first step (if any) went through and whose first fetch and parse raised
  \<open>exc\<close>: when the message of \<open>exc\<close> looks like an expired session, the call continues
  with exactly one more login and, if that login succeeds, exactly one more fetch; the
  result is that of the second parse, or the error of the first step of the retry that
  failed, unchanged; when the message does not match, \<open>exc\<close> itself is the result and
  nothing more is called.  In every call the handler logs in at most once.
\<close>

theorem get_balance_retry_once:
  "(truthy (account s) \<longrightarrow> truthy (password s) \<longrightarrow> login_first env True s = (None, s0) \<longrightarrow>
    fetch_and_parse env s0 = (Inl exc, s1) \<longrightarrow>
      (looks_like_login_expired (exc_str exc) \<longrightarrow>
         get_balance env True s = retry env s1
         \<and> logins (snd (get_balance env True s)) = logins s1 + 1
         \<and> (case login_and_get_token env s1 of
              (Inl e, s2) \<Rightarrow> get_balance env True s = (Inl e, s2) \<and> fetches s2 = fetches s1
            | (Inr t, s2) \<Rightarrow>
                fetches (snd (get_balance env True s)) = fetches s1 + 1
                \<and> (case request_balance env s2 of
                     (Inl e, s3) \<Rightarrow> get_balance env True s = (Inl e, s3)
                   | (Inr data, s3) \<Rightarrow> get_balance env True s = (parse_balance (py_repr env) data, s3))))
      \<and> (\<not> looks_like_login_expired (exc_str exc) \<longrightarrow> get_balance env True s = (Inl exc, s1)))
   \<and> logins (snd (get_balance env auto_retry s)) \<le> logins (snd (try_block env auto_retry s)) + 1
   \<and> logins (snd (get_balance env auto_retry s)) \<le> logins s + 2"
proof (intro conjI impI)
  assume creds: "truthy (account s)" "truthy (password s)"
    and first: "login_first env True s = (None, s0)"
    and fail: "fetch_and_parse env s0 = (Inl exc, s1)"
  note gb = get_balance_first_failure [OF creds first fail]
  {
    assume "\<not> looks_like_login_expired (exc_str exc)"
    then show "get_balance env True s = (Inl exc, s1)" using gb by simp
  }
  assume "looks_like_login_expired (exc_str exc)"
  then show eq: "get_balance env True s = retry env s1" using gb by simp
  obtain r s' where rt: "retry env s1 = (r, s')" by (cases "retry env s1")
  show "logins (snd (get_balance env True s)) = logins s1 + 1"
    using retry_counts(1) [OF rt] eq rt by simp
  obtain r2 s2 where l: "login_and_get_token env s1 = (r2, s2)" by (cases "login_and_get_token env s1")
  show "case login_and_get_token env s1 of
              (Inl e, s2) \<Rightarrow> get_balance env True s = (Inl e, s2) \<and> fetches s2 = fetches s1
            | (Inr t, s2) \<Rightarrow>
                fetches (snd (get_balance env True s)) = fetches s1 + 1
                \<and> (case request_balance env s2 of
                     (Inl e, s3) \<Rightarrow> get_balance env True s = (Inl e, s3)
                   | (Inr data, s3) \<Rightarrow> get_balance env True s = (parse_balance (py_repr env) data, s3))"
  proof (cases r2)
    case (Inl e)
    then show ?thesis using l eq login_counts(2) [OF l] by (simp add: retry_def)
  next
    case (Inr t)
    obtain r3 s3 where f: "fetch_and_parse env s2 = (r3, s3)" by (cases "fetch_and_parse env s2")
    have "fetches (snd (get_balance env True s)) = fetches s1 + 1"
      using Inr l eq f fetch_counts(2) [OF f] login_counts(2) [OF l] by (simp add: retry_def)
    moreover have "case request_balance env s2 of
                     (Inl e, s3) \<Rightarrow> get_balance env True s = (Inl e, s3)
                   | (Inr data, s3) \<Rightarrow> get_balance env True s = (parse_balance (py_repr env) data, s3)"
      using Inr l eq by (simp add: retry_def fetch_and_parse_def split: prod.splits sum.splits)
    ultimately show ?thesis using Inr l by simp
  qed
next
  show "logins (snd (get_balance env auto_retry s)) \<le> logins (snd (try_block env auto_retry s)) + 1"
    by (rule get_balance_handler_logins)
  show "logins (snd (get_balance env auto_retry s)) \<le> logins s + 2"
    by (rule get_balance_logins)
qed

lemma ex_first_fetch:
  "fetch_and_parse ex_env ex_state = (Inl (ApiError (expired_keywords ! 2)), ex_state1)"
  by (simp add: fetch_and_parse_def request_balance_def ex_env_def ex_state_def ex_state1_def emit_def
      ex_expired_def py_def)

lemma ex_expired_message: "looks_like_login_expired (exc_str (ApiError (expired_keywords ! 2)))"
  by (simp add: looks_like_login_expired_def ApiError_def expired_keywords_def py_def)

lemma ex_login_first: "login_first ex_env True ex_state = (None, ex_state)"
  by (simp add: login_first_def ex_state_def py_def)

lemma ex_retry:
  "fst (retry ex_env ex_state1) = Inr (snapshot_of (JStr (py ''A101'')) ex_device)
   \<and> trace (snd (retry ex_env ex_state1)) = [EvRequest, EvLogin, EvSave, EvRequest]"
  by (simp add: retry_def login_and_get_token_def fetch_and_parse_def request_balance_def ex_env_def
      ex_state_def ex_state1_def emit_def save_config_def Let_def ex_data_def ex_room_def ex_other_def
      ex_device_def devices_list_of_def room_name_of_def snapshot_of_def py_def)

text \<open>The example world: the first response reports an expired session, the retry succeeds.\<close>

theorem get_balance_retry_once_witness:
  "truthy (account ex_state) \<and> truthy (password ex_state)
   \<and> login_first ex_env True ex_state = (None, ex_state)
   \<and> fetch_and_parse ex_env ex_state = (Inl (ApiError (expired_keywords ! 2)), ex_state1)
   \<and> looks_like_login_expired (exc_str (ApiError (expired_keywords ! 2)))
   \<and> get_balance ex_env True ex_state = retry ex_env ex_state1
   \<and> fst (get_balance ex_env True ex_state) = Inr (snapshot_of (JStr (py ''A101'')) ex_device)
   \<and> trace (snd (get_balance ex_env True ex_state)) = [EvRequest, EvLogin, EvSave, EvRequest]
   \<and> logins (snd (get_balance ex_env True ex_state)) = logins ex_state1 + 1"
proof -
  have creds: "truthy (account ex_state)" "truthy (password ex_state)"
    by (simp_all add: ex_state_def py_def)
  have none: "logins ex_state1 = 0" by (simp add: ex_state1_def ex_state_def)
  show ?thesis
    using get_balance_retry_once [of ex_state ex_env ex_state "ApiError (expired_keywords ! 2)" ex_state1 True]
      creds ex_login_first ex_first_fetch ex_expired_message ex_retry none
    by simp
qed

section \<open>Monitor loop\<close>

lemma keeps_refl: "keeps_check_fields s s"
  by (simp add: keeps_check_fields_def)

lemma keeps_trans: "keeps_check_fields s s1 \<Longrightarrow> keeps_check_fields s1 s2 \<Longrightarrow> keeps_check_fields s s2"
  by (auto simp: keeps_check_fields_def)

lemma keeps_emit: "keeps_check_fields s (emit e s)"
  by (simp add: keeps_check_fields_def emit_def)

lemma keeps_world: "keeps_check_fields s (s\<lparr>world := w\<rparr>)"
  by (simp add: keeps_check_fields_def)

lemma login_keeps: "login_and_get_token env s = (r, s') \<Longrightarrow> keeps_check_fields s s'"
  by (auto simp: login_and_get_token_def Let_def emit_def save_config_def keeps_check_fields_def
      check_fields_def split: if_splits prod.splits sum.splits option.splits)

lemma request_keeps: "request_balance env s = (r, s') \<Longrightarrow> keeps_check_fields s s'"
  by (auto simp: request_balance_def Let_def emit_def keeps_check_fields_def split: if_splits prod.splits)

lemma fetch_keeps: "fetch_and_parse env s = (r, s') \<Longrightarrow> keeps_check_fields s s'"
  by (auto simp: fetch_and_parse_def split: prod.splits sum.splits dest: request_keeps)

lemma retry_keeps: "retry env s = (r, s') \<Longrightarrow> keeps_check_fields s s'"
  by (auto simp: retry_def split: prod.splits sum.splits dest: login_keeps fetch_keeps intro: keeps_trans)

lemma login_first_keeps: "login_first env ar s = (r, s') \<Longrightarrow> keeps_check_fields s s'"
  by (auto simp: login_first_def keeps_refl split: if_splits prod.splits sum.splits dest: login_keeps)

lemma try_block_keeps: "try_block env ar s = (r, s') \<Longrightarrow> keeps_check_fields s s'"
  by (auto simp: try_block_def split: prod.splits option.splits
      dest: login_first_keeps fetch_keeps intro: keeps_trans)

lemma get_balance_keeps: "get_balance env ar s = (r, s') \<Longrightarrow> keeps_check_fields s s'"
  by (auto simp: get_balance_def split: prod.splits sum.splits if_splits
      dest: try_block_keeps retry_keeps intro: keeps_trans)

lemma send_keeps: "keeps_check_fields s (send_to_origins env origins n use_card s)"
proof (induction origins arbitrary: s)
  case Nil
  then show ?case by (simp add: keeps_refl)
next
  case (Cons origin origins)
  obtain r w where sm: "send_message env origin
      (if use_card \<and> truthy (get_config (use_onebot11_card (config s)) (JBool True)) then Card n else Plain n)
      (world s) = (r, w)"
    by (cases "send_message env origin
      (if use_card \<and> truthy (get_config (use_onebot11_card (config s)) (JBool True)) then Card n else Plain n)
      (world s)")
  let ?p = "if use_card \<and> truthy (get_config (use_onebot11_card (config s)) (JBool True)) then Card n else Plain n"
  have "keeps_check_fields s (emit (EvSend origin ?p (r = None)) (s\<lparr>world := w\<rparr>))"
    by (simp add: keeps_check_fields_def emit_def)
  then show ?case using sm Cons.IH [of "emit (EvSend origin ?p (r = None)) (s\<lparr>world := w\<rparr>)"]
    by (auto simp: Let_def intro: keeps_trans)
qed

lemma run_check_failure_keeps:
  assumes "run_check env now origins s = (Some exc, s')"
  shows "keeps_check_fields s s'"
proof -
  obtain r1 s1 where gb: "get_balance env (truthy (get_config (auto_refresh_token (config s)) (JBool True))) s = (r1, s1)"
    by (cases "get_balance env (truthy (get_config (auto_refresh_token (config s)) (JBool True))) s")
  have k1: "keeps_check_fields s s1" using gb by (rule get_balance_keeps)
  have "s' = s1 \<or> (\<exists>n c. s' = send_to_origins env origins n c s1)"
    using assms gb
    by (auto simp: run_check_def Let_def split: sum.splits if_splits option.splits)
  then show ?thesis using k1 send_keeps keeps_trans by blast
qed

lemma run_check_success:
  assumes "run_check env now origins s = (None, s')"
  shows "\<exists>info s1 bal.
      get_balance env (truthy (get_config (auto_refresh_token (config s)) (JBool True))) s = (Inr info, s1)
      \<and> to_float env (balance info) = Inr bal
      \<and> last_balance (config s') = JFloat bal \<and> last_check_ts (config s') = JFloat (Finite now)
      \<and> saved s' = config s'"
  using assms
  by (auto simp: run_check_def Let_def save_config_def emit_def
      split: prod.splits sum.splits if_splits option.splits)

lemma check_failure:
  assumes "run_check env now origins s = (Some exc, s1)"
  shows "keeps_check_fields s (check env now origins s)"
proof -
  have "keeps_check_fields s s1" using assms by (rule run_check_failure_keeps)
  moreover have "keeps_check_fields s1 (emit (EvLogError exc) s1)" by (rule keeps_emit)
  moreover have "keeps_check_fields (emit (EvLogError exc) s1)
      (send_to_origins env origins (CheckFailed exc) False (emit (EvLogError exc) s1))"
    by (rule send_keeps)
  ultimately show ?thesis using assms keeps_trans by (simp add: check_def) blast
qed

lemma do_sleep_fields [simp]:
  "config (do_sleep env d s) = config s" "saved (do_sleep env d s) = saved s"
  "token (do_sleep env d s) = token s" "trace (do_sleep env d s) = trace s @ [EvSleep d]"
  "stopped (do_sleep env d s) = stopped s"
  by (simp_all add: do_sleep_def emit_def)

lemma check_and_sleep_open:
  "gate_open env s origins \<Longrightarrow>
   check_and_sleep env now im s = Next (do_sleep env (IntNum (im * 60)) (check env now origins s))"
  by (simp add: check_and_sleep_def)



text \<open>\<open>now >= last_check_ts\<close> fails when the timestamp is greater than \<open>now\<close> or is not a number.\<close>

lemma not_float_le: "\<not> float_le t (Finite n) \<longleftrightarrow> float_less (Finite n) t \<or> t = NaN"
  by (cases t) (auto simp: float_le_def float_less_def)

lemma due_check_cases:
  assumes "due_check env im s = Due s0"
  shows "s0 = s \<or> (s0 = cleared s
      \<and> (\<exists>t. to_float env (last_check_ts (config s)) = Inr t \<and> \<not> float_le t (Finite (now_of env s))))"
  using assms
  by (auto simp: due_check_def Let_def get_config_def split: if_splits sum.splits)

lemma cleared_neq: "cleared s \<noteq> s"
proof
  assume "cleared s = s"
  then have "trace (cleared s) = trace s" by simp
  then show False by (simp add: save_config_def emit_def)
qed

lemma failed_iteration:
  assumes im: "interval_minutes_of env (config s) = Inr im"
    and due: "due_check env im s = Due s0"
    and gate: "gate_open env s0 origins"
    and fail: "run_check env (now_of env s) origins s0 = (Some exc, s1)"
    and synced: "saved s = config s"
  shows "\<exists>s'. monitor_iteration env s = Next s'
      \<and> last_balance (saved s') = last_balance (saved s)
      \<and> last_balance (config s') = last_balance (config s)
      \<and> (s0 = s \<longrightarrow> last_check_ts (saved s') = last_check_ts (saved s)
                    \<and> last_check_ts (config s') = last_check_ts (config s))
      \<and> (s0 \<noteq> s \<longrightarrow> last_check_ts (saved s') = JNull \<and> last_check_ts (config s') = JNull
                    \<and> (\<exists>t. to_float env (last_check_ts (config s)) = Inr t
                           \<and> (float_less (Finite (now_of env s)) t \<or> t = NaN)))"
proof -
  let ?c = "check env (now_of env s) origins s0"
  let ?s' = "do_sleep env (IntNum (im * 60)) ?c"
  have it: "monitor_iteration env s = Next ?s'"
    using im due by (simp add: monitor_iteration_def check_and_sleep_open [OF gate])
  have k: "keeps_check_fields s0 ?c" using fail by (rule check_failure)
  have s0_synced: "check_fields (saved s0) = check_fields (config s0)"
    using due_check_cases [OF due] synced by (auto simp: save_config_def emit_def)
  have f: "check_fields (config ?s') = check_fields (config s0)" "check_fields (saved ?s') = check_fields (config s0)"
    using k s0_synced by (auto simp: keeps_check_fields_def)
  show ?thesis
  proof (cases "s0 = s")
    case True
    then show ?thesis using it f synced by (auto simp: check_fields_def)
  next
    case False
    then have c: "s0 = cleared s"
      and fut: "\<exists>t. to_float env (last_check_ts (config s)) = Inr t
          \<and> (float_less (Finite (now_of env s)) t \<or> t = NaN)"
      using due_check_cases [OF due] by (auto simp: not_float_le)
    have "check_fields (config s0) = (JNull, last_balance (config s))"
      using c by (simp add: check_fields_def save_config_def emit_def)
    then show ?thesis using it f synced False fut by (auto simp: check_fields_def)
  qed
qed

lemma successful_iteration:
  assumes im: "interval_minutes_of env (config s) = Inr im"
    and due: "due_check env im s = Due s0"
    and gate: "gate_open env s0 origins"
    and ok: "run_check env (now_of env s) origins s0 = (None, s1)"
  shows "\<exists>s' info s2 bal. monitor_iteration env s = Next s'
      \<and> get_balance env (truthy (get_config (auto_refresh_token (config s0)) (JBool True))) s0 = (Inr info, s2)
      \<and> to_float env (balance info) = Inr bal
      \<and> last_balance (saved s') = JFloat bal \<and> last_balance (config s') = JFloat bal
      \<and> last_check_ts (saved s') = JFloat (Finite (now_of env s))
      \<and> last_check_ts (config s') = JFloat (Finite (now_of env s))"
proof -
  let ?s' = "do_sleep env (IntNum (im * 60)) s1"
  have "check env (now_of env s) origins s0 = s1" using ok by (simp add: check_def)
  then have it: "monitor_iteration env s = Next ?s'"
    using im due by (simp add: monitor_iteration_def check_and_sleep_open [OF gate])
  obtain info s2 bal where
    "get_balance env (truthy (get_config (auto_refresh_token (config s0)) (JBool True))) s0 = (Inr info, s2)"
    "to_float env (balance info) = Inr bal"
    "last_balance (config s1) = JFloat bal" "last_check_ts (config s1) = JFloat (Finite (now_of env s))"
    "saved s1 = config s1"
    using run_check_success [OF ok] by blast
  then show ?thesis using it by auto
qed







lemma extends_emit: "extends s (emit e s)"
  by (simp add: extends_def emit_def)












lemma interval_minutes_positive: "interval_minutes_of env cfg = Inr im \<Longrightarrow> 1 \<le> im"
  by (auto simp: interval_minutes_of_def split: sum.splits if_splits)

lemma due_check_wait:
  assumes "last_check_ts (config s) \<noteq> JNull" "to_float env (last_check_ts (config s)) = Inr last_ts"
    "float_le last_ts (Finite (now_of env s))"
    "float_sub (round_float env) (Finite (now_of env s)) last_ts = elapsed"
    "float_less_int elapsed (im * 60)"
  shows "due_check env im s =
     (case float_of_int (round_float env) (im * 60) of
        None \<Rightarrow> Broken int_too_large
      | Some interval \<Rightarrow> Wait (float_sub (round_float env) interval elapsed))"
  using assms by (simp add: due_check_def int_sub_float_def Let_def get_config_def split: option.splits)



lemma cleared_fields [simp]:
  "last_check_ts (config (cleared s)) = JNull" "last_check_ts (saved (cleared s)) = JNull"
  "trace (cleared s) = trace s @ [EvSave]" "world (cleared s) = world s"
  "check_interval_minutes (config (cleared s)) = check_interval_minutes (config s)"
  "auto_check (config (cleared s)) = auto_check (config s)"
  "notify_origins (config (cleared s)) = notify_origins (config s)"
  by (simp_all add: save_config_def emit_def)



text \<open>
  Half an interval after the last check, with accurate rounding: the elapsed time, the
  interval as a float and the remaining time are each off by a fraction of at most
  \<open>1 / 2 ^ 53\<close>, so the remaining time is within \<open>interval / 2 ^ 51\<close> of half the interval.
\<close>

lemma half_interval_wait:
  fixes i :: real
  assumes acc: "accurate_rounding rnd" and lo: "60 \<le> i" and hi: "i \<le> 2 ^ 1000"
  shows "\<exists>e i' w. rnd (i / 2) = Finite e \<and> e < i \<and> rnd i = Finite i' \<and> i' - e \<noteq> 0
      \<and> rnd (i' - e) = Finite w \<and> \<bar>w - i / 2\<bar> \<le> i / 2 ^ 51 \<and> 0 < w \<and> w < i"
proof -
  define a where "a = i / 2 ^ 53"
  have a: "0 < a" "a * 2 ^ 53 = i" using lo by (simp_all add: a_def)
  have small: "a \<le> i / 1000"
  proof -
    have "(1000::real) \<le> 2 ^ 53" by simp
    then have "i / 2 ^ 53 \<le> i / 1000" using lo by (intro divide_left_mono) simp_all
    then show ?thesis by (simp add: a_def)
  qed
  have "1 \<le> \<bar>i / 2\<bar> \<and> \<bar>i / 2\<bar> \<le> 2 ^ 1000" using lo hi by simp
  then obtain e where e: "rnd (i / 2) = Finite e" "\<bar>e - i / 2\<bar> \<le> \<bar>i / 2\<bar> / 2 ^ 53"
    using acc unfolding accurate_rounding_def by blast
  have e_err: "\<bar>e - i / 2\<bar> \<le> a / 2" using e(2) lo by (simp add: a_def)
  have "1 \<le> \<bar>i\<bar> \<and> \<bar>i\<bar> \<le> 2 ^ 1000" using lo hi by simp
  then obtain i' where i': "rnd i = Finite i'" "\<bar>i' - i\<bar> \<le> \<bar>i\<bar> / 2 ^ 53"
    using acc unfolding accurate_rounding_def by blast
  have i_err: "\<bar>i' - i\<bar> \<le> a" using i'(2) lo by (simp add: a_def)
  have d_lo: "29 \<le> i' - e" and d_hi: "i' - e \<le> i" using e_err i_err small lo by linarith+
  then have "1 \<le> \<bar>i' - e\<bar> \<and> \<bar>i' - e\<bar> \<le> 2 ^ 1000" using hi by linarith
  then obtain w where w: "rnd (i' - e) = Finite w" "\<bar>w - (i' - e)\<bar> \<le> \<bar>i' - e\<bar> / 2 ^ 53"
    using acc unfolding accurate_rounding_def by blast
  have "\<bar>i' - e\<bar> / 2 ^ 53 \<le> i / 2 ^ 53" using d_lo d_hi by (intro divide_right_mono) simp_all
  then have w_err: "\<bar>w - (i' - e)\<bar> \<le> a" using w(2) by (simp add: a_def)
  have "\<bar>w - i / 2\<bar> \<le> 4 * a" using w_err e_err i_err a by linarith
  moreover have "4 * a = i / 2 ^ 51" by (simp add: a_def)
  ultimately have close: "\<bar>w - i / 2\<bar> \<le> i / 2 ^ 51" by simp
  have "0 < w" "w < i" "e < i" "i' - e \<noteq> 0" using w_err e_err i_err small lo d_lo by linarith+
  then show ?thesis using e(1) i'(1) w(1) close by blast
qed

lemma float_sub_finite:
  "x - y \<noteq> 0 \<Longrightarrow> float_sub rnd (Finite x) (Finite y) = rnd (x - y)"
  by (simp add: float_sub_def)

lemma float_of_int_finite:
  "i \<noteq> 0 \<Longrightarrow> rnd (of_int i) = Finite z \<Longrightarrow> float_of_int rnd i = Some (Finite z)"
  by (simp add: float_of_int_def)

lemma half_interval_due:
  assumes acc: "accurate_rounding (round_float env)"
    and im: "interval_minutes_of env (config s) = Inr im" and hi: "im * 60 \<le> 2 ^ 1000"
    and last: "last_check_ts (config s) \<noteq> JNull" "to_float env (last_check_ts (config s)) = Inr (Finite last_ts)"
    and half: "now_of env s - last_ts = of_int (im * 60) / 2"
  shows "\<exists>wait. due_check env im s = Wait (Finite wait)
      \<and> \<bar>wait - of_int (im * 60) / 2\<bar> \<le> of_int (im * 60) / 2 ^ 51
      \<and> 0 < wait \<and> wait < of_int (im * 60)"
proof -
  let ?i = "of_int (im * 60) :: real"
  let ?rnd = "round_float env"
  have "1 \<le> im" using im by (rule interval_minutes_positive)
  then have lo: "60 \<le> ?i" by simp
  have "?i \<le> of_int (2 ^ 1000)" using hi by (simp only: of_int_le_iff)
  then have hi': "?i \<le> 2 ^ 1000" by simp
  obtain e i' w where r: "?rnd (?i / 2) = Finite e" "e < ?i" "?rnd ?i = Finite i'" "i' - e \<noteq> 0"
    "?rnd (i' - e) = Finite w" "\<bar>w - ?i / 2\<bar> \<le> ?i / 2 ^ 51" "0 < w" "w < ?i"
    using half_interval_wait [OF acc lo hi'] by blast
  have le: "float_le (Finite last_ts) (Finite (now_of env s))"
    using half lo by (simp add: float_le_def)
  have "now_of env s - last_ts \<noteq> 0" using half lo by simp
  then have el: "float_sub ?rnd (Finite (now_of env s)) (Finite last_ts) = Finite e"
    using r(1) half by (simp add: float_sub_finite)
  have lt: "float_less_int (Finite e) (im * 60)" using r(2) by (simp add: float_less_int_def)
  have "im * 60 \<noteq> 0" using \<open>1 \<le> im\<close> by simp
  then have conv: "float_of_int ?rnd (im * 60) = Some (Finite i')"
    using r(3) by (rule float_of_int_finite)
  have "float_sub ?rnd (Finite i') (Finite e) = Finite w" using r(4,5) by (simp add: float_sub_finite)
  then have "due_check env im s = Wait (Finite w)"
    using due_check_wait [OF last le el lt] conv by simp
  then show ?thesis using r(6,7,8) by blast
qed

text \<open>
  C5 (as amended).  An iteration that finds a stored timestamp \<open>last_ts\<close> with
  \<open>now >= last_ts\<close> and with \<open>elapsed\<close>, the float \<open>now - last_ts\<close>, less than
  \<open>interval_seconds\<close>: when \<open>interval_seconds\<close> has a float, \<open>interval\<close>, the iteration
  sleeps exactly the float \<open>interval - elapsed\<close> and does nothing else (the state is the
  old one but for the sleep), and the loop goes on from the top with that state; when
  \<open>interval_seconds\<close> is beyond the range of the floats, the subtraction raises
  \<open>OverflowError\<close> and the loop ends with it.  With rounding as accurate as that of the
  binary64 format and \<open>last_ts\<close> half an interval before \<open>now\<close>, the wait is within
  \<open>interval_seconds / 2 ^ 51\<close> of half the interval, and is neither zero nor the full
  interval.
\<close>

theorem wait_for_remaining_interval:
  "(interval_minutes_of env (config s) = Inr interval_minutes \<longrightarrow> last_check_ts (config s) \<noteq> JNull \<longrightarrow>
    to_float env (last_check_ts (config s)) = Inr last_ts \<longrightarrow> float_le last_ts (Finite (now_of env s)) \<longrightarrow>
    float_sub (round_float env) (Finite (now_of env s)) last_ts = elapsed \<longrightarrow>
    float_less_int elapsed (interval_minutes * 60) \<longrightarrow>
      (float_of_int (round_float env) (interval_minutes * 60) = Some interval \<longrightarrow>
         monitor_iteration env s = Next (do_sleep env (FloatNum (float_sub (round_float env) interval elapsed)) s)
         \<and> do_sleep env (FloatNum (float_sub (round_float env) interval elapsed)) s
             = s\<lparr>world := sleep env (FloatNum (float_sub (round_float env) interval elapsed)) (world s),
                 trace := trace s @ [EvSleep (FloatNum (float_sub (round_float env) interval elapsed))]\<rparr>
         \<and> (\<not> stopped s \<longrightarrow>
               monitor_loop env (Suc n) s
                 = monitor_loop env n
                     (do_sleep env (FloatNum (float_sub (round_float env) interval elapsed)) s)))
      \<and> (float_of_int (round_float env) (interval_minutes * 60) = None \<longrightarrow>
           monitor_iteration env s = Raised int_too_large s
           \<and> (\<not> stopped s \<longrightarrow> monitor_loop env (Suc n) s = Crashed int_too_large s)))
   \<and> (accurate_rounding (round_float env) \<longrightarrow> interval_minutes_of env (config s) = Inr interval_minutes \<longrightarrow>
        interval_minutes * 60 \<le> 2 ^ 1000 \<longrightarrow> last_check_ts (config s) \<noteq> JNull \<longrightarrow>
        to_float env (last_check_ts (config s)) = Inr (Finite half_ago) \<longrightarrow>
        now_of env s - half_ago = of_int (interval_minutes * 60) / 2 \<longrightarrow>
          (\<exists>wait. monitor_iteration env s = Next (do_sleep env (FloatNum (Finite wait)) s)
             \<and> \<bar>wait - of_int (interval_minutes * 60) / 2\<bar> \<le> of_int (interval_minutes * 60) / 2 ^ 51
             \<and> 0 < wait \<and> wait < of_int (interval_minutes * 60)))"
proof (intro conjI impI)
  assume im: "interval_minutes_of env (config s) = Inr interval_minutes"
    and a: "last_check_ts (config s) \<noteq> JNull" "to_float env (last_check_ts (config s)) = Inr last_ts"
      "float_le last_ts (Finite (now_of env s))"
      "float_sub (round_float env) (Finite (now_of env s)) last_ts = elapsed"
      "float_less_int elapsed (interval_minutes * 60)"
  note d = due_check_wait [OF a]
  let ?w = "FloatNum (float_sub (round_float env) interval elapsed)"
  {
    assume "float_of_int (round_float env) (interval_minutes * 60) = None"
    then show r: "monitor_iteration env s = Raised int_too_large s"
      using im d by (simp add: monitor_iteration_def)
    assume "\<not> stopped s"
    then show "monitor_loop env (Suc n) s = Crashed int_too_large s" using r by simp
  }
  assume "float_of_int (round_float env) (interval_minutes * 60) = Some interval"
  then show it: "monitor_iteration env s = Next (do_sleep env ?w s)"
    using im d by (simp add: monitor_iteration_def)
  show "do_sleep env ?w s = s\<lparr>world := sleep env ?w (world s), trace := trace s @ [EvSleep ?w]\<rparr>"
    by (simp add: do_sleep_def emit_def)
  assume "\<not> stopped s"
  then show "monitor_loop env (Suc n) s = monitor_loop env n (do_sleep env ?w s)"
    using it by simp
next
  assume acc: "accurate_rounding (round_float env)"
    and im: "interval_minutes_of env (config s) = Inr interval_minutes"
    and hi: "interval_minutes * 60 \<le> 2 ^ 1000"
    and last: "last_check_ts (config s) \<noteq> JNull" "to_float env (last_check_ts (config s)) = Inr (Finite half_ago)"
    and half: "now_of env s - half_ago = of_int (interval_minutes * 60) / 2"
  obtain wait where w: "due_check env interval_minutes s = Wait (Finite wait)"
    "\<bar>wait - of_int (interval_minutes * 60) / 2\<bar> \<le> of_int (interval_minutes * 60) / 2 ^ 51"
    "0 < wait" "wait < of_int (interval_minutes * 60)"
    using half_interval_due [OF acc im hi last half] by blast
  have "monitor_iteration env s = Next (do_sleep env (FloatNum (Finite wait)) s)"
    using im w(1) by (simp add: monitor_iteration_def)
  then show "\<exists>wait. monitor_iteration env s = Next (do_sleep env (FloatNum (Finite wait)) s)
             \<and> \<bar>wait - of_int (interval_minutes * 60) / 2\<bar> \<le> of_int (interval_minutes * 60) / 2 ^ 51
             \<and> 0 < wait \<and> wait < of_int (interval_minutes * 60)"
    using w(2,3,4) by blast
qed




lemmas ex_defs = ex_env_def ex_state_def ex_config_def ex_with_def ex_nocreds_def ex_wait_def ex_future_def
  ex_future_nocreds_def ex_future_alone_def ex_huge_def ex_data_def ex_room_def ex_other_def ex_device_def
  ex_expired_def expired_keywords_def py_def

lemmas client_defs = get_balance_def try_block_def login_first_def retry_def fetch_and_parse_def
  request_balance_def login_and_get_token_def emit_def save_config_def devices_list_of_def
  room_name_of_def snapshot_of_def looks_like_login_expired_def ApiError_def

lemmas float_defs = float_less_def float_le_def float_less_int_def float_eq_int_def float_sub_def
  float_of_int_def int_sub_float_def ex_round_def

lemma ex_success:
  "fst (run_check ex_env 100000 [JStr (py ''group1'')] ex_state) = None
   \<and> now_of ex_env (snd (run_check ex_env 100000 [JStr (py ''group1'')] ex_state)) = 100003
   \<and> last_balance (saved (snd (run_check ex_env 100000 [JStr (py ''group1'')] ex_state))) = JFloat (Finite 15.5)
   \<and> trace (snd (run_check ex_env 100000 [JStr (py ''group1'')] ex_state)) =
       [EvRequest, EvLogin, EvSave, EvRequest,
        EvSend (JStr (py ''group1''))
          (Card (LowBalance (Finite 15.5) (JFloat (Finite 30)) (JStr (py ''2024-01-01 10:00'')))) True,
        EvSend (JStr (py ''group1''))
          (Card (Recharge (Finite 15.5) (Finite 10) (JInt 60) (JStr (py ''2024-01-01 10:00'')))) True,
        EvSave]"
  by (simp add: run_check_def client_defs ex_defs float_defs Let_def get_config_def)

lemma ex_failure:
  "fst (run_check ex_env 100000 [JStr (py ''group1'')] ex_nocreds) = Some (ApiError (expired_keywords ! 2))"
  by (simp add: run_check_def client_defs ex_defs Let_def get_config_def)

text \<open>
  C4 (as amended).  In an iteration that reaches the check with nothing unsaved and whose
  check fails, the persisted \<open>last_balance\<close> is as before the iteration, and the persisted
  \<open>last_check_ts\<close> is as before the iteration unless it lay in the future (or was not a
  number, so that \<open>now >= last_check_ts\<close> did not hold), in which case it is the cleared
  value the iteration saved before the check.  In an iteration whose check succeeds, the
  balance and \<open>now\<close> are persisted, whatever was notified.
\<close>

theorem failed_check_keeps_persisted_state:
  "interval_minutes_of env (config s) = Inr interval_minutes \<longrightarrow>
   due_check env interval_minutes s = Due s0 \<longrightarrow> gate_open env s0 origins \<longrightarrow>
     (run_check env (now_of env s) origins s0 = (Some exc, s1) \<longrightarrow> saved s = config s \<longrightarrow>
        (\<exists>s'. monitor_iteration env s = Next s'
           \<and> last_balance (saved s') = last_balance (saved s)
           \<and> last_balance (config s') = last_balance (config s)
           \<and> (s0 = s \<longrightarrow> last_check_ts (saved s') = last_check_ts (saved s)
                         \<and> last_check_ts (config s') = last_check_ts (config s))
           \<and> (s0 \<noteq> s \<longrightarrow> last_check_ts (saved s') = JNull \<and> last_check_ts (config s') = JNull
                         \<and> (\<exists>t. to_float env (last_check_ts (config s)) = Inr t
                                \<and> (float_less (Finite (now_of env s)) t \<or> t = NaN)))))
     \<and> (run_check env (now_of env s) origins s0 = (None, s1) \<longrightarrow>
        (\<exists>s' info s2 bal. monitor_iteration env s = Next s'
           \<and> get_balance env (truthy (get_config (auto_refresh_token (config s0)) (JBool True))) s0 = (Inr info, s2)
           \<and> to_float env (balance info) = Inr bal
           \<and> last_balance (saved s') = JFloat bal \<and> last_balance (config s') = JFloat bal
           \<and> last_check_ts (saved s') = JFloat (Finite (now_of env s))
           \<and> last_check_ts (config s') = JFloat (Finite (now_of env s))))"
  using failed_iteration [of env s interval_minutes s0 origins exc s1]
    successful_iteration [of env s interval_minutes s0 origins s1] by blast

lemma ex_origins:
  "get_notify_origins ex_env ex_state = Inr [JStr (py ''group1'')]"
  "get_notify_origins ex_env ex_nocreds = Inr [JStr (py ''group1'')]"
  "get_notify_origins ex_env ex_future = Inr [JStr (py ''group1'')]"
  "get_notify_origins ex_env ex_future_nocreds = Inr [JStr (py ''group1'')]"
  "get_notify_origins ex_env ex_future_alone = Inr []"
  by (simp_all add: get_notify_origins_def ex_defs)

lemma ex_auto:
  "truthy (get_config (auto_check (config ex_state)) (JBool True))"
  "truthy (get_config (auto_check (config ex_nocreds)) (JBool True))"
  "truthy (get_config (auto_check (config ex_future)) (JBool True))"
  "truthy (get_config (auto_check (config ex_future_nocreds)) (JBool True))"
  "truthy (get_config (auto_check (config ex_future_alone)) (JBool True))"
  by (simp_all add: get_config_def ex_defs)

lemma ex_interval:
  "interval_minutes_of ex_env (config ex_state) = Inr 60"
  "interval_minutes_of ex_env (config ex_nocreds) = Inr 60"
  "interval_minutes_of ex_env (config ex_wait) = Inr 60"
  "interval_minutes_of ex_env (config ex_future) = Inr 60"
  "interval_minutes_of ex_env (config ex_future_nocreds) = Inr 60"
  "interval_minutes_of ex_env (config ex_future_alone) = Inr 60"
  "interval_minutes_of ex_env (config ex_huge) = Inr (10 ^ 400)"
  by (simp_all add: interval_minutes_of_def get_config_def ex_defs)

lemma ex_due:
  "due_check ex_env 60 ex_state = Due ex_state" "due_check ex_env 60 ex_nocreds = Due ex_nocreds"
  "now_of ex_env ex_state = 100000" "now_of ex_env ex_nocreds = 100000"
  "saved ex_nocreds = config ex_nocreds"
  by (simp_all add: due_check_def get_config_def Let_def ex_defs)

lemma ex_failure_state:
  "last_balance (saved ex_nocreds) = JFloat (Finite 10)" "last_check_ts (saved ex_nocreds) = JNull"
  by (simp_all add: ex_defs)

text \<open>A failed check (no account) and a successful one (the retry goes through).\<close>

theorem failed_check_keeps_persisted_state_witness:
  "interval_minutes_of ex_env (config ex_nocreds) = Inr 60
   \<and> due_check ex_env 60 ex_nocreds = Due ex_nocreds \<and> gate_open ex_env ex_nocreds [JStr (py ''group1'')]
   \<and> fst (run_check ex_env (now_of ex_env ex_nocreds) [JStr (py ''group1'')] ex_nocreds)
       = Some (ApiError (expired_keywords ! 2))
   \<and> saved ex_nocreds = config ex_nocreds
   \<and> last_balance (saved (outcome_state (monitor_iteration ex_env ex_nocreds))) = JFloat (Finite 10)
   \<and> last_check_ts (saved (outcome_state (monitor_iteration ex_env ex_nocreds))) = JNull
   \<and> interval_minutes_of ex_env (config ex_state) = Inr 60
   \<and> due_check ex_env 60 ex_state = Due ex_state \<and> gate_open ex_env ex_state [JStr (py ''group1'')]
   \<and> fst (run_check ex_env (now_of ex_env ex_state) [JStr (py ''group1'')] ex_state) = None
   \<and> last_balance (saved (outcome_state (monitor_iteration ex_env ex_state))) = JFloat (Finite 15.5)
   \<and> last_check_ts (saved (outcome_state (monitor_iteration ex_env ex_state))) = JFloat (Finite 100000)"
proof -
  let ?f = "run_check ex_env (now_of ex_env ex_nocreds) [JStr (py ''group1'')] ex_nocreds"
  let ?g = "run_check ex_env (now_of ex_env ex_state) [JStr (py ''group1'')] ex_state"
  have f: "fst ?f = Some (ApiError (expired_keywords ! 2))" using ex_failure by (simp add: ex_due)
  then have f': "?f = (Some (ApiError (expired_keywords ! 2)), snd ?f)" by (metis prod.collapse)
  have g: "fst ?g = None" using ex_success by (simp add: ex_due)
  then have g': "?g = (None, snd ?g)" by (metis prod.collapse)
  have bal: "\<And>info s2.
      get_balance ex_env (truthy (get_config (auto_refresh_token (config ex_state)) (JBool True))) ex_state = (Inr info, s2)
      \<Longrightarrow> balance info = JFloat (Finite 15.5)"
    by (simp add: client_defs ex_defs Let_def get_config_def)
  have "\<exists>s'. monitor_iteration ex_env ex_nocreds = Next s'
           \<and> last_balance (saved s') = last_balance (saved ex_nocreds)
           \<and> last_check_ts (saved s') = last_check_ts (saved ex_nocreds)"
    using failed_check_keeps_persisted_state [of ex_env ex_nocreds 60 ex_nocreds "[JStr (py ''group1'')]"
        "ApiError (expired_keywords ! 2)" "snd ?f"]
      ex_due ex_interval ex_origins ex_auto f' by auto
  then have 1: "last_balance (saved (outcome_state (monitor_iteration ex_env ex_nocreds))) = JFloat (Finite 10)
      \<and> last_check_ts (saved (outcome_state (monitor_iteration ex_env ex_nocreds))) = JNull"
    using ex_failure_state by auto
  have "\<exists>s' info s2 bal. monitor_iteration ex_env ex_state = Next s'
           \<and> get_balance ex_env (truthy (get_config (auto_refresh_token (config ex_state)) (JBool True))) ex_state = (Inr info, s2)
           \<and> to_float ex_env (balance info) = Inr bal
           \<and> last_balance (saved s') = JFloat bal
           \<and> last_check_ts (saved s') = JFloat (Finite (now_of ex_env ex_state))"
    using failed_check_keeps_persisted_state [of ex_env ex_state 60 ex_state "[JStr (py ''group1'')]"
        "ApiError []" "snd ?g"]
      ex_due ex_interval ex_origins ex_auto g' by auto
  then have 2: "last_balance (saved (outcome_state (monitor_iteration ex_env ex_state))) = JFloat (Finite 15.5)
      \<and> last_check_ts (saved (outcome_state (monitor_iteration ex_env ex_state))) = JFloat (Finite 100000)"
    using bal ex_due by auto
  show ?thesis using 1 2 f g ex_due ex_interval ex_origins ex_auto by simp
qed

text \<open>
  C4 (as stated) fails: the stored timestamp lies in the future and the balance fetch
  fails (the session has expired and there is no account to log in with); the iteration
  has persisted the cleared timestamp.
\<close>

theorem failed_check_future_counterexample:
  "monitor_iteration ex_env ex_future_nocreds = Next (outcome_state (monitor_iteration ex_env ex_future_nocreds))
   \<and> fst (run_check ex_env (now_of ex_env ex_future_nocreds) [JStr (py ''group1'')] (cleared ex_future_nocreds))
       = Some (ApiError (expired_keywords ! 2))
   \<and> last_check_ts (saved ex_future_nocreds) = JFloat (Finite 110000)
   \<and> last_check_ts (saved (outcome_state (monitor_iteration ex_env ex_future_nocreds))) = JNull
   \<and> last_check_ts (saved (outcome_state (monitor_iteration ex_env ex_future_nocreds)))
       \<noteq> last_check_ts (saved ex_future_nocreds)"
  by (simp add: monitor_iteration_def due_check_def check_and_sleep_def check_def run_check_def do_sleep_def
      interval_minutes_of_def get_notify_origins_def client_defs ex_defs float_defs Let_def get_config_def)

text \<open>
  C9.  In an iteration whose check succeeds, the persisted \<open>last_check_ts\<close> is \<open>now\<close>, read
  from the clock at the start of the iteration, in the world in which the check then
  starts, and not the time at which the fetch or the deliveries end.
\<close>

theorem successful_check_persists_start_time:
  "interval_minutes_of env (config s) = Inr interval_minutes \<longrightarrow>
   due_check env interval_minutes s = Due s0 \<longrightarrow> gate_open env s0 origins \<longrightarrow>
   run_check env (now_of env s) origins s0 = (None, s1) \<longrightarrow>
     monitor_iteration env s = Next (do_sleep env (IntNum (interval_minutes * 60)) s1)
     \<and> last_check_ts (config s1) = JFloat (Finite (now_of env s))
     \<and> last_check_ts (saved s1) = JFloat (Finite (now_of env s))
     \<and> last_check_ts (saved (do_sleep env (IntNum (interval_minutes * 60)) s1)) = JFloat (Finite (now_of env s))
     \<and> now_of env s0 = now_of env s"
proof (intro impI conjI)
  assume im: "interval_minutes_of env (config s) = Inr interval_minutes"
    and due: "due_check env interval_minutes s = Due s0" and gate: "gate_open env s0 origins"
    and ok: "run_check env (now_of env s) origins s0 = (None, s1)"
  have "check env (now_of env s) origins s0 = s1" using ok by (simp add: check_def)
  then show "monitor_iteration env s = Next (do_sleep env (IntNum (interval_minutes * 60)) s1)"
    using im due by (simp add: monitor_iteration_def check_and_sleep_open [OF gate])
  show c: "last_check_ts (config s1) = JFloat (Finite (now_of env s))"
    using run_check_success [OF ok] by auto
  show "last_check_ts (saved s1) = JFloat (Finite (now_of env s))"
    using run_check_success [OF ok] by auto
  then show "last_check_ts (saved (do_sleep env (IntNum (interval_minutes * 60)) s1)) = JFloat (Finite (now_of env s))"
    by simp
  show "now_of env s0 = now_of env s" using due_check_cases [OF due] by auto
qed

text \<open>The check takes three seconds of the example clock; the stamp is the start time.\<close>

theorem successful_check_persists_start_time_witness:
  "interval_minutes_of ex_env (config ex_state) = Inr 60
   \<and> due_check ex_env 60 ex_state = Due ex_state \<and> gate_open ex_env ex_state [JStr (py ''group1'')]
   \<and> fst (run_check ex_env (now_of ex_env ex_state) [JStr (py ''group1'')] ex_state) = None
   \<and> now_of ex_env ex_state = 100000
   \<and> now_of ex_env (snd (run_check ex_env (now_of ex_env ex_state) [JStr (py ''group1'')] ex_state)) = 100003
   \<and> last_check_ts (saved (snd (run_check ex_env (now_of ex_env ex_state) [JStr (py ''group1'')] ex_state)))
       = JFloat (Finite 100000)"
proof -
  let ?g = "run_check ex_env (now_of ex_env ex_state) [JStr (py ''group1'')] ex_state"
  have g: "fst ?g = None" "now_of ex_env (snd ?g) = 100003" using ex_success by (simp_all add: ex_due)
  then have g': "?g = (None, snd ?g)" by (metis prod.collapse)
  show ?thesis
    using successful_check_persists_start_time [of ex_env ex_state 60 ex_state "[JStr (py ''group1'')]" "snd ?g"]
      g g' ex_due ex_interval ex_origins ex_auto
    by simp
qed

lemma ex_rounding: "accurate_rounding (round_float ex_env)"
proof -
  have "\<And>x::real. \<bar>x\<bar> \<le> 2 ^ 1000 \<Longrightarrow> \<bar>x\<bar> < 2 ^ 1024"
  proof -
    fix x :: real assume "\<bar>x\<bar> \<le> 2 ^ 1000"
    moreover have "(2::real) ^ 1000 < 2 ^ 1024" by (rule power_strict_increasing) simp_all
    ultimately show "\<bar>x\<bar> < 2 ^ 1024" by linarith
  qed
  then show ?thesis by (simp add: accurate_rounding_def ex_env_def ex_round_def)
qed

lemma ex_wait_facts:
  "last_check_ts (config ex_wait) \<noteq> JNull" "to_float ex_env (last_check_ts (config ex_wait)) = Inr (Finite 98200)"
  "now_of ex_env ex_wait = 100000" "\<not> stopped ex_wait" "round_float ex_env = ex_round"
  "float_le (Finite 98200) (Finite 100000)" "float_sub ex_round (Finite 100000) (Finite 98200) = Finite 1800"
  "float_less_int (Finite 1800) (60 * 60)" "float_of_int ex_round (60 * 60) = Some (Finite 3600)"
  "float_sub ex_round (Finite 3600) (Finite 1800) = Finite 1800"
  by (simp_all add: get_config_def ex_defs float_defs)

lemma ex_huge_facts:
  "last_check_ts (config ex_huge) \<noteq> JNull" "to_float ex_env (last_check_ts (config ex_huge)) = Inr (Finite 99999)"
  "now_of ex_env ex_huge = 100000" "\<not> stopped ex_huge"
  "float_le (Finite 99999) (Finite (now_of ex_env ex_huge))"
  "float_sub (round_float ex_env) (Finite (now_of ex_env ex_huge)) (Finite 99999) = Finite 1"
  "float_less_int (Finite 1) (10 ^ 400 * 60)"
  "float_of_int (round_float ex_env) (10 ^ 400 * 60) = None"
  by (simp_all add: get_config_def ex_defs float_defs)

text \<open>
  Half of a 60 minute interval has passed: the loop waits 1800 seconds.  With an interval
  of \<open>10 ^ 400\<close> minutes the loop ends with \<open>OverflowError\<close>.
\<close>

theorem wait_for_remaining_interval_witness:
  "interval_minutes_of ex_env (config ex_wait) = Inr 60
   \<and> last_check_ts (config ex_wait) \<noteq> JNull
   \<and> to_float ex_env (last_check_ts (config ex_wait)) = Inr (Finite 98200)
   \<and> float_le (Finite 98200) (Finite (now_of ex_env ex_wait))
   \<and> float_sub (round_float ex_env) (Finite (now_of ex_env ex_wait)) (Finite 98200) = Finite 1800
   \<and> float_less_int (Finite 1800) (60 * 60)
   \<and> float_of_int (round_float ex_env) (60 * 60) = Some (Finite 3600)
   \<and> float_sub (round_float ex_env) (Finite 3600) (Finite 1800) = Finite 1800
   \<and> \<not> stopped ex_wait
   \<and> monitor_iteration ex_env ex_wait = Next (do_sleep ex_env (FloatNum (Finite 1800)) ex_wait)
   \<and> monitor_loop ex_env (Suc 0) ex_wait = Running (do_sleep ex_env (FloatNum (Finite 1800)) ex_wait)
   \<and> trace (do_sleep ex_env (FloatNum (Finite 1800)) ex_wait) = [EvSleep (FloatNum (Finite 1800))]
   \<and> accurate_rounding (round_float ex_env)
   \<and> (60 * 60 :: int) \<le> 2 ^ 1000
   \<and> now_of ex_env ex_wait - 98200 = of_int (60 * 60) / 2
   \<and> (\<exists>wait. monitor_iteration ex_env ex_wait = Next (do_sleep ex_env (FloatNum (Finite wait)) ex_wait)
         \<and> \<bar>wait - 1800\<bar> \<le> 3600 / 2 ^ 51 \<and> 0 < wait \<and> wait < 3600)
   \<and> interval_minutes_of ex_env (config ex_huge) = Inr (10 ^ 400)
   \<and> float_of_int (round_float ex_env) (10 ^ 400 * 60) = None
   \<and> monitor_iteration ex_env ex_huge = Raised int_too_large ex_huge"
proof -
  have small: "(60 * 60 :: int) \<le> 2 ^ 1000"
  proof -
    have "(2::int) ^ 12 \<le> 2 ^ 1000" by (rule power_increasing) simp_all
    then show ?thesis by simp
  qed
  note w = wait_for_remaining_interval [of ex_env ex_wait 60 "Finite 98200" "Finite 1800" "Finite 3600" 0 98200]
  note w1 = w [THEN conjunct1] and w2 = w [THEN conjunct2]
  have it: "monitor_iteration ex_env ex_wait = Next (do_sleep ex_env (FloatNum (Finite 1800)) ex_wait)"
    using w1 ex_wait_facts ex_interval(3) by simp
  have loop: "monitor_loop ex_env (Suc 0) ex_wait = monitor_loop ex_env 0 (do_sleep ex_env (FloatNum (Finite 1800)) ex_wait)"
    using w1 ex_wait_facts ex_interval(3) by simp
  have half: "now_of ex_env ex_wait - 98200 = of_int (60 * 60) / 2" using ex_wait_facts(3) by simp
  have "\<exists>wait. monitor_iteration ex_env ex_wait = Next (do_sleep ex_env (FloatNum (Finite wait)) ex_wait)
         \<and> \<bar>wait - of_int (60 * 60) / 2\<bar> \<le> of_int (60 * 60) / 2 ^ 51 \<and> 0 < wait \<and> wait < of_int (60 * 60)"
    using w2 ex_wait_facts(1,2) ex_interval(3) ex_rounding small half by blast
  then have approx: "\<exists>wait. monitor_iteration ex_env ex_wait = Next (do_sleep ex_env (FloatNum (Finite wait)) ex_wait)
         \<and> \<bar>wait - 1800\<bar> \<le> 3600 / 2 ^ 51 \<and> 0 < wait \<and> wait < 3600"
    by simp
  have huge: "monitor_iteration ex_env ex_huge = Raised int_too_large ex_huge"
    using wait_for_remaining_interval [of ex_env ex_huge "10 ^ 400" "Finite 99999" "Finite 1" NaN 0 0, THEN conjunct1]
      ex_huge_facts(1,2,5,6,7,8) ex_interval(7) by blast
  have tr: "trace (do_sleep ex_env (FloatNum (Finite 1800)) ex_wait) = [EvSleep (FloatNum (Finite 1800))]"
    "\<not> stopped (do_sleep ex_env (FloatNum (Finite 1800)) ex_wait)"
    by (simp_all add: ex_defs)
  have wait_part: "interval_minutes_of ex_env (config ex_wait) = Inr 60
      \<and> last_check_ts (config ex_wait) \<noteq> JNull
      \<and> to_float ex_env (last_check_ts (config ex_wait)) = Inr (Finite 98200)
      \<and> float_le (Finite 98200) (Finite (now_of ex_env ex_wait))
      \<and> float_sub (round_float ex_env) (Finite (now_of ex_env ex_wait)) (Finite 98200) = Finite 1800
      \<and> float_less_int (Finite 1800) (60 * 60)
      \<and> float_of_int (round_float ex_env) (60 * 60) = Some (Finite 3600)
      \<and> float_sub (round_float ex_env) (Finite 3600) (Finite 1800) = Finite 1800
      \<and> \<not> stopped ex_wait
      \<and> monitor_iteration ex_env ex_wait = Next (do_sleep ex_env (FloatNum (Finite 1800)) ex_wait)
      \<and> monitor_loop ex_env (Suc 0) ex_wait = Running (do_sleep ex_env (FloatNum (Finite 1800)) ex_wait)
      \<and> trace (do_sleep ex_env (FloatNum (Finite 1800)) ex_wait) = [EvSleep (FloatNum (Finite 1800))]
      \<and> accurate_rounding (round_float ex_env)
      \<and> (60 * 60 :: int) \<le> 2 ^ 1000
      \<and> now_of ex_env ex_wait - 98200 = of_int (60 * 60) / 2"
    using it loop tr ex_wait_facts ex_interval(3) ex_rounding small by simp
  show ?thesis
    using wait_part approx huge ex_huge_facts(8) ex_interval(7) by blast
qed

text \<open>
  C5 (as stated) fails: a second after the last check, with an interval of \<open>10 ^ 400\<close>
  minutes, the elapsed time is less than the interval, and the iteration does not sleep:
  \<open>interval_seconds - elapsed\<close> raises \<open>OverflowError\<close>, which ends the loop.
\<close>

theorem remaining_wait_overflow_counterexample:
  "last_check_ts (config ex_huge) = JFloat (Finite 99999)
   \<and> check_interval_minutes (config ex_huge) = JInt (10 ^ 400)
   \<and> now_of ex_env ex_huge = 100000
   \<and> interval_minutes_of ex_env (config ex_huge) = Inr (10 ^ 400)
   \<and> float_le (Finite 99999) (Finite 100000)
   \<and> float_sub (round_float ex_env) (Finite 100000) (Finite 99999) = Finite 1
   \<and> float_less_int (Finite 1) (10 ^ 400 * 60)
   \<and> monitor_iteration ex_env ex_huge = Raised (OverflowError (py ''int too large to convert to float'')) ex_huge
   \<and> monitor_loop ex_env (Suc 0) ex_huge = Crashed (OverflowError (py ''int too large to convert to float'')) ex_huge
   \<and> trace ex_huge = []"
  by (simp add: monitor_iteration_def due_check_def interval_minutes_of_def int_too_large_def
      get_config_def Let_def ex_defs float_defs)






text \<open>
  Every write to the configuration is followed by \<open>save_config\<close>: an iteration that starts
  with nothing unsaved ends with nothing unsaved.
\<close>

lemma synced_login: "login_and_get_token env s = (r, s') \<Longrightarrow> saved s = config s \<Longrightarrow> saved s' = config s'"
  by (auto simp: login_and_get_token_def Let_def emit_def save_config_def
      split: if_splits prod.splits sum.splits option.splits)

lemma synced_request: "request_balance env s = (r, s') \<Longrightarrow> saved s = config s \<Longrightarrow> saved s' = config s'"
  by (auto simp: request_balance_def Let_def emit_def split: if_splits prod.splits)

lemma synced_fetch: "fetch_and_parse env s = (r, s') \<Longrightarrow> saved s = config s \<Longrightarrow> saved s' = config s'"
  by (auto simp: fetch_and_parse_def split: prod.splits sum.splits dest: synced_request)

lemma synced_retry: "retry env s = (r, s') \<Longrightarrow> saved s = config s \<Longrightarrow> saved s' = config s'"
  by (auto simp: retry_def split: prod.splits sum.splits dest: synced_login synced_fetch)

lemma synced_login_first: "login_first env ar s = (r, s') \<Longrightarrow> saved s = config s \<Longrightarrow> saved s' = config s'"
  by (auto simp: login_first_def split: if_splits prod.splits sum.splits dest: synced_login)

lemma synced_try_block: "try_block env ar s = (r, s') \<Longrightarrow> saved s = config s \<Longrightarrow> saved s' = config s'"
  by (auto simp: try_block_def split: prod.splits option.splits dest: synced_login_first synced_fetch)

lemma synced_get_balance: "get_balance env ar s = (r, s') \<Longrightarrow> saved s = config s \<Longrightarrow> saved s' = config s'"
  by (auto simp: get_balance_def split: prod.splits sum.splits if_splits
      dest: synced_try_block synced_retry)

lemma send_config [simp]:
  "config (send_to_origins env origins n use_card s) = config s"
  "saved (send_to_origins env origins n use_card s) = saved s"
  by (induction origins arbitrary: s) (auto simp: Let_def emit_def split: prod.splits)

lemma synced_run_check: "run_check env now origins s = (r, s') \<Longrightarrow> saved s = config s \<Longrightarrow> saved s' = config s'"
proof -
  assume rc: "run_check env now origins s = (r, s')" and sy: "saved s = config s"
  obtain r1 s1 where gb: "get_balance env (truthy (get_config (auto_refresh_token (config s)) (JBool True))) s = (r1, s1)"
    by (cases "get_balance env (truthy (get_config (auto_refresh_token (config s)) (JBool True))) s")
  have "saved s1 = config s1" using synced_get_balance [OF gb sy] .
  then show ?thesis using rc gb
    by (auto simp: run_check_def Let_def save_config_def emit_def split: sum.splits if_splits option.splits)
qed

lemma synced_check: "saved s = config s \<Longrightarrow> saved (check env now origins s) = config (check env now origins s)"
proof -
  assume sy: "saved s = config s"
  obtain r s1 where rc: "run_check env now origins s = (r, s1)" by (cases "run_check env now origins s")
  have "saved s1 = config s1" using synced_run_check [OF rc sy] .
  then show ?thesis using rc by (cases r) (simp_all add: check_def emit_def)
qed

lemma synced_iteration:
  assumes "saved s = config s"
  shows "saved (outcome_state (monitor_iteration env s)) = config (outcome_state (monitor_iteration env s))"
proof (cases "interval_minutes_of env (config s)")
  case (Inl e)
  then show ?thesis using assms by (simp add: monitor_iteration_def)
next
  case (Inr im)
  show ?thesis
  proof (cases "due_check env im s")
    case (Wait d)
    then show ?thesis using assms Inr by (simp add: monitor_iteration_def)
  next
    case (Due s0)
    then have s0: "saved s0 = config s0"
      using due_check_cases [OF Due] assms by (auto simp: save_config_def emit_def)
    have "saved (outcome_state (check_and_sleep env (now_of env s) im s0))
        = config (outcome_state (check_and_sleep env (now_of env s) im s0))"
      using s0 synced_check [of s0 env]
      by (simp add: check_and_sleep_def split: sum.splits)
    then show ?thesis using Due Inr by (simp add: monitor_iteration_def)
  next
    case (Broken e)
    then show ?thesis using assms Inr by (simp add: monitor_iteration_def)
  qed
qed

section \<open>Singleton coordinator\<close>

lemma cancel_fields [simp]:
  "instances (cancel t p) = instances p" "GLOBAL_MONITOR_TASK (cancel t p) = GLOBAL_MONITOR_TASK p"
  "GLOBAL_MONITOR_OWNER (cancel t p) = GLOBAL_MONITOR_OWNER p" "next_task (cancel t p) = next_task p"
  by (simp_all add: cancel_def)


lemma set_stopped_fields [simp]:
  "task_status_of (set_stopped i b p) = task_status_of p"
  "GLOBAL_MONITOR_TASK (set_stopped i b p) = GLOBAL_MONITOR_TASK p"
  "GLOBAL_MONITOR_OWNER (set_stopped i b p) = GLOBAL_MONITOR_OWNER p"
  "next_task (set_stopped i b p) = next_task p"
  "monitor_task (instances (set_stopped i b p) j) = monitor_task (instances p j)"
  "stopped_flag (instances (set_stopped i b p) j) = (if j = i then b else stopped_flag (instances p j))"
  by (simp_all add: set_stopped_def)

lemma set_monitor_task_fields [simp]:
  "task_status_of (set_monitor_task i t p) = task_status_of p"
  "GLOBAL_MONITOR_TASK (set_monitor_task i t p) = GLOBAL_MONITOR_TASK p"
  "GLOBAL_MONITOR_OWNER (set_monitor_task i t p) = GLOBAL_MONITOR_OWNER p"
  "next_task (set_monitor_task i t p) = next_task p"
  "monitor_task (instances (set_monitor_task i t p) j) = (if j = i then t else monitor_task (instances p j))"
  "stopped_flag (instances (set_monitor_task i t p) j) = stopped_flag (instances p j)"
  by (simp_all add: set_monitor_task_def)





















end
